theory Spec2Isabelle
  imports Main "HOL-Library.AList" "HOL-Library.List_Lexorder"
begin

section \<open>Python values and strings\<close>

text \<open>
  A Python \<open>str\<close> is a sequence of Unicode code points; it is modelled as the list of
  their numbers.  ASCII literals of the source are written with \<open>ascii\<close>.
\<close>

type_synonym ustr = "nat list"

definition ascii :: "string \<Rightarrow> ustr" where
  "ascii s = map of_char s"

text \<open>
  The values that reach the normalizer and the label mapper: \<open>None\<close>, a \<open>str\<close>, or any
  other object, which the code only ever passes to \<open>str()\<close>; such an object is
  represented by the string \<open>str()\<close> returns for it.
\<close>

datatype pyval = PyNone | PyStr ustr | PyObj ustr

text \<open>
  \<open>str.isspace\<close> for one code point.  \<open>str.strip()\<close> and the class \<open>\s\<close> of \<open>re\<close> on
  \<open>str\<close> patterns both use this set.
\<close>

definition py_isspace :: "nat \<Rightarrow> bool" where
  "py_isspace c \<longleftrightarrow>
     (0x9 \<le> c \<and> c \<le> 0xD) \<or> (0x1C \<le> c \<and> c \<le> 0x20) \<or> c = 0x85 \<or> c = 0xA0 \<or>
     c = 0x1680 \<or> (0x2000 \<le> c \<and> c \<le> 0x200A) \<or> c = 0x2028 \<or> c = 0x2029 \<or>
     c = 0x202F \<or> c = 0x205F \<or> c = 0x3000"

definition py_strip :: "ustr \<Rightarrow> ustr" where
  "py_strip s = rev (dropWhile py_isspace (rev (dropWhile py_isspace s)))"

text \<open>
  The Unicode character database behind \<open>unicodedata.normalize\<close> and \<open>str.lower\<close> is not
  part of the repository.  On a string of ASCII characters both functions are fixed by
  the standard (NFKC leaves it alone, \<open>lower\<close> maps \<open>A..Z\<close> to \<open>a..z\<close>); on any other
  string they are the two tables of this record, a parameter of everything below.
\<close>

record unicode_data =
  nfkc_tbl :: "ustr \<Rightarrow> ustr"
  lower_tbl :: "ustr \<Rightarrow> ustr"

definition is_ascii :: "ustr \<Rightarrow> bool" where
  "is_ascii s = list_all (\<lambda>c. c < 128) s"

definition normalize_NFKC :: "unicode_data \<Rightarrow> ustr \<Rightarrow> ustr" where
  "normalize_NFKC U s = (if is_ascii s then s else nfkc_tbl U s)"

definition ascii_lower :: "nat \<Rightarrow> nat" where
  "ascii_lower c = (if 0x41 \<le> c \<and> c \<le> 0x5A then c + 32 else c)"

definition py_lower :: "unicode_data \<Rightarrow> ustr \<Rightarrow> ustr" where
  "py_lower U s = (if is_ascii s then map ascii_lower s else lower_tbl U s)"

section \<open>Text Normalizer: \<open>arabic_normalize\<close>\<close>

text \<open>\<open>re.sub(r'\s+', ' ', text)\<close>: every maximal run of whitespace becomes one space.\<close>

function re_sub_ws :: "ustr \<Rightarrow> ustr" where
  "re_sub_ws [] = []"
| "re_sub_ws (c # cs) =
     (if py_isspace c then 0x20 # re_sub_ws (dropWhile py_isspace cs)
      else c # re_sub_ws cs)"
  by pat_completeness auto
termination
  by (relation "measure length") (auto simp: less_Suc_eq_le length_dropWhile_le)

text \<open>
  The character classes of the two substitutions: \<open>[\u064B-\u065F\u0670]\<close> and the
  three alef forms U+0625, U+0623, U+0622 that the source file has in its pattern.
\<close>

definition is_diacritic :: "nat \<Rightarrow> bool" where
  "is_diacritic c \<longleftrightarrow> (0x64B \<le> c \<and> c \<le> 0x65F) \<or> c = 0x670"

definition is_alef_variant :: "nat \<Rightarrow> bool" where
  "is_alef_variant c \<longleftrightarrow> c = 0x625 \<or> c = 0x623 \<or> c = 0x622"

text \<open>\<open>str(v)\<close>\<close>

definition py_str :: "pyval \<Rightarrow> ustr" where
  "py_str v = (case v of PyNone \<Rightarrow> ascii ''None'' | PyStr s \<Rightarrow> s | PyObj r \<Rightarrow> r)"

text \<open>
  The steps of \<open>arabic_normalize\<close> after NFKC, in the order of the source: remove
  tatweel, fold the alef forms to bare alef, remove the diacritics, fold alef maqsura to
  yeh, collapse whitespace and strip.
\<close>

definition fold_orthography :: "ustr \<Rightarrow> ustr" where
  "fold_orthography text0 =
     (let text1 = filter (\<lambda>c. c \<noteq> 0x640) text0;
          text2 = map (\<lambda>c. if is_alef_variant c then 0x627 else c) text1;
          text3 = filter (\<lambda>c. \<not> is_diacritic c) text2;
          text4 = map (\<lambda>c. if c = 0x649 then 0x64A else c) text3
      in py_strip (re_sub_ws text4))"

text \<open>A value that is not a \<open>str\<close> is first replaced by \<open>str\<close> of it, \<open>None\<close> by the empty string.\<close>

definition arabic_normalize :: "unicode_data \<Rightarrow> pyval \<Rightarrow> ustr" where
  "arabic_normalize U v =
     (let text = (case v of PyStr s \<Rightarrow> s | PyNone \<Rightarrow> [] | PyObj r \<Rightarrow> r)
      in fold_orthography (normalize_NFKC U text))"

section \<open>Label Mapper: \<open>map_label_for_row\<close>\<close>

text \<open>
  The label map is a dict of dicts: source name to (raw label to canonical label).
\<close>

type_synonym label_table = "ustr \<rightharpoonup> ustr"
type_synonym label_map = "ustr \<rightharpoonup> label_table"

definition DROP_UNMAPPED :: bool where
  "DROP_UNMAPPED = False"

definition DEFAULT_MAP_TARGET :: ustr where
  "DEFAULT_MAP_TARGET = ascii ''normal''"

definition CANONICAL_LABELS :: "ustr set" where
  "CANONICAL_LABELS = {ascii ''normal'', ascii ''offensive'', ascii ''profanity''}"

definition get_label_map :: label_map where
  "get_label_map =
     [ascii ''all'' \<mapsto> map_of
       [(ascii ''Neutral'', ascii ''normal''),
        (ascii ''Positive'', ascii ''normal''),
        (ascii ''Negative'', ascii ''offensive''),
        (ascii ''ADULT'', ascii ''profanity''),
        (ascii ''NOT_ADULT'', ascii ''normal''),
        (ascii ''no'', ascii ''normal''),
        (ascii ''yes'', ascii ''offensive''),
        (ascii ''neutral'', ascii ''normal''),
        (ascii ''negative'', ascii ''offensive''),
        (ascii ''positive'', ascii ''normal''),
        (ascii ''offensive'', ascii ''offensive''),
        (ascii ''not'', ascii ''normal''),
        (ascii ''Offensive'', ascii ''offensive''),
        (ascii ''non-offensive'', ascii ''normal''),
        (ascii ''Non-offensive'', ascii ''normal''),
        (ascii ''abusive'', ascii ''profanity''),
        (ascii ''normal'', ascii ''normal''),
        (ascii ''hate'', ascii ''offensive''),
        (ascii ''Bullying'', ascii ''offensive''),
        (ascii ''non-bullying'', ascii ''normal''),
        (ascii ''none'', ascii ''normal''),
        (ascii ''None'', ascii ''normal''),
        (ascii ''HATE'', ascii ''offensive''),
        (ascii ''OFFENSIVE'', ascii ''offensive''),
        (ascii ''NORMAL'', ascii ''normal''),
        ([], ascii ''normal''),
        (ascii ''cyber'', ascii ''offensive''),
        (ascii ''not cyber'', ascii ''normal'')]]"

text \<open>\<open>k in label_map and lbl in label_map[k]\<close>, then \<open>label_map[k][lbl]\<close>.\<close>

definition lookup_layer :: "label_map \<Rightarrow> ustr \<Rightarrow> ustr \<Rightarrow> ustr option" where
  "lookup_layer label_map k lbl = (case label_map k of None \<Rightarrow> None | Some tbl \<Rightarrow> tbl lbl)"

definition normal_words :: "ustr list" where
  "normal_words = [ascii ''0'', ascii ''none'', ascii ''neutral'', ascii ''normal'',
     ascii ''clean'', ascii ''non'']"

definition offensive_words :: "ustr list" where
  "offensive_words = [ascii ''1'', ascii ''offensive'', ascii ''offence'', ascii ''abusive'',
     ascii ''hate'', ascii ''abuse'', ascii ''toxic'', ascii ''insult'']"

definition profanity_words :: "ustr list" where
  "profanity_words = [ascii ''2'', ascii ''profanity'', ascii ''swear'', ascii ''swear_word'',
     ascii ''vulgar'', ascii ''obscene'']"

definition keyword_fallback :: "unicode_data \<Rightarrow> ustr \<Rightarrow> ustr option" where
  "keyword_fallback U lbl_raw =
     (let low = py_lower U lbl_raw in
      if low \<in> set normal_words then Some (ascii ''normal'')
      else if low \<in> set offensive_words then Some (ascii ''offensive'')
      else if low \<in> set profanity_words then Some (ascii ''profanity'')
      else None)"

text \<open>
  The result is \<open>None\<close> where the source returns \<open>None\<close> (the row is dropped), and
  \<open>Some\<close> label otherwise.
\<close>

definition map_label_for_row :: "unicode_data \<Rightarrow> ustr \<Rightarrow> pyval \<Rightarrow> label_map \<Rightarrow> ustr option" where
  "map_label_for_row U src lbl_raw0 label_map =
     (let lbl_raw = (case lbl_raw0 of PyNone \<Rightarrow> [] | _ \<Rightarrow> py_strip (py_str lbl_raw0));
          mapped =
            (case lookup_layer label_map src lbl_raw of
               Some m \<Rightarrow> Some m
             | None \<Rightarrow>
                 (case lookup_layer label_map (ascii ''all'') lbl_raw of
                    Some m \<Rightarrow> Some m
                  | None \<Rightarrow> lookup_layer label_map [] lbl_raw));
          mapped = (if mapped = None \<and> lbl_raw \<noteq> [] then keyword_fallback U lbl_raw
                    else mapped)
      in if mapped = None \<and> DROP_UNMAPPED then None
         else
           (let mapped = (case mapped of None \<Rightarrow> DEFAULT_MAP_TARGET | Some m \<Rightarrow> m);
                mapped = py_strip (py_lower U mapped)
            in if mapped \<notin> CANONICAL_LABELS then Some DEFAULT_MAP_TARGET else Some mapped))"

section \<open>File Discovery and Table Loader\<close>

text \<open>\<open>os.path\<close> on POSIX paths: \<open>join\<close>, \<open>basename\<close> and \<open>splitext\<close>.\<close>

definition path_join :: "ustr \<Rightarrow> ustr \<Rightarrow> ustr" where
  "path_join a b =
     (if b \<noteq> [] \<and> hd b = 0x2F then b
      else if a = [] \<or> last a = 0x2F then a @ b
      else a @ [0x2F] @ b)"

definition basename :: "ustr \<Rightarrow> ustr" where
  "basename p = rev (takeWhile (\<lambda>c. c \<noteq> 0x2F) (rev p))"

text \<open>
  \<open>splitext\<close> splits at the last dot of the last path component, unless that component
  has nothing but dots before it.
\<close>

definition splitext :: "ustr \<Rightarrow> ustr \<times> ustr" where
  "splitext p =
     (let b = basename p;
          e = rev (takeWhile (\<lambda>c. c \<noteq> 0x2E) (rev b));
          stem = take (length b - length e - 1) b
      in if 0x2E \<in> set b \<and> list_ex (\<lambda>c. c \<noteq> 0x2E) stem
         then (take (length p - length e - 1) p, 0x2E # e)
         else (p, []))"

text \<open>
  \<open>glob.glob(pattern, recursive=True)\<close> reads the file system; its result for each
  pattern is a parameter.  Python's \<open>sorted\<close> on strings is the lexicographic order on
  code points.
\<close>

definition default_patterns :: "ustr list" where
  "default_patterns = [ascii ''**/*.csv'', ascii ''**/*.tsv'', ascii ''**/*.json'',
     ascii ''**/*.xlsx'', ascii ''**/*.xls'', ascii ''**/*.parquet'']"

definition find_files :: "(ustr \<Rightarrow> ustr list) \<Rightarrow> ustr \<Rightarrow> ustr list" where
  "find_files glob input_dir =
     sort (concat (map (\<lambda>p. glob (path_join input_dir p)) default_patterns))"

text \<open>
  A loaded table (\<open>DataFrame\<close>): the column names in order, and one entry per row with
  the row's index label (as \<open>str\<close> renders it) and its cells by column name.  Whether
  pandas considers a column string-typed (\<open>is_string_dtype\<close>) comes with the table.  A
  missing cell (NaN) is the object whose \<open>str\<close> is \<open>nan\<close>.
\<close>

type_synonym row = "(ustr \<times> pyval) list"

record table =
  tbl_columns :: "ustr list"
  tbl_string_dtype :: "ustr \<Rightarrow> bool"
  tbl_rows :: "(ustr \<times> row) list"

text \<open>Exceptions, all of them subclasses of \<open>Exception\<close>, with their message.\<close>

datatype exn = ValueError ustr | RuntimeError ustr | OtherError ustr

datatype encoding = UTF8 | UTF8_SIG | LATIN1 | CP1256

text \<open>The pandas readers: each either raises or returns a table.\<close>

record pandas_io =
  read_csv :: "ustr \<Rightarrow> nat \<Rightarrow> encoding \<Rightarrow> exn + table"
  read_json :: "ustr \<Rightarrow> bool \<Rightarrow> exn + table"
  read_excel :: "ustr \<Rightarrow> exn + table"
  read_parquet :: "ustr \<Rightarrow> exn + table"

text \<open>
  The loop over the encodings.  Each \<open>except Exception: continue\<close> ends the handling of
  that attempt's exception, so the bare \<open>raise\<close> after the loop has no active exception
  and Python raises \<open>RuntimeError('No active exception to reraise')\<close>.
\<close>

fun try_encodings :: "pandas_io \<Rightarrow> ustr \<Rightarrow> nat \<Rightarrow> encoding list \<Rightarrow> exn + table" where
  "try_encodings io path sep [] = Inl (RuntimeError (ascii ''No active exception to reraise''))"
| "try_encodings io path sep (enc # encs) =
     (case read_csv io path sep enc of
        Inr df \<Rightarrow> Inr df
      | Inl _ \<Rightarrow> try_encodings io path sep encs)"

definition safe_read_table :: "unicode_data \<Rightarrow> pandas_io \<Rightarrow> ustr \<Rightarrow> exn + table" where
  "safe_read_table U io path =
     (let ext = py_lower U (snd (splitext path)) in
      if ext = ascii ''.csv'' \<or> ext = ascii ''.tsv'' then
        (let sep = (if ext = ascii ''.tsv'' then 0x9 else 0x2C)
         in try_encodings io path sep [UTF8, UTF8_SIG, LATIN1, CP1256])
      else if ext = ascii ''.json'' then
        (case read_json io path True of
           Inl (ValueError _) \<Rightarrow> read_json io path False
         | r \<Rightarrow> r)
      else if ext = ascii ''.xlsx'' \<or> ext = ascii ''.xls'' then read_excel io path
      else if ext = ascii ''.parquet'' then read_parquet io path
      else Inl (ValueError (ascii ''Unsupported file type: '' @ path)))"

section \<open>Schema Inferencer: \<open>canonicalize_columns\<close>\<close>

definition prefer_text_fields :: "ustr list" where
  "prefer_text_fields = [ascii ''text'', ascii ''content'', ascii ''tweet'', ascii ''sentence'',
     ascii ''comment'', ascii ''post'']"

definition prefer_label_fields :: "ustr list" where
  "prefer_label_fields = [ascii ''label'', ascii ''target'', ascii ''class'',
     ascii ''annotation'', ascii ''y'']"

definition id_candidates :: "ustr list" where
  "id_candidates = [ascii ''id'', ascii ''uid'', ascii ''post_id'', ascii ''tweet_id'',
     ascii ''idx'']"

text \<open>\<open>for name in names: if name in cols: result = cols[name]; break\<close>\<close>

fun first_known :: "(ustr \<rightharpoonup> ustr) \<Rightarrow> ustr list \<Rightarrow> ustr option" where
  "first_known cols [] = None"
| "first_known cols (name # names) =
     (case cols name of Some c \<Rightarrow> Some c | None \<Rightarrow> first_known cols names)"

text \<open>
  The dict comprehension \<open>{c.lower(): c for c in df.columns}\<close> keeps, for each
  lower-cased name, the last column with it.
\<close>

definition canonicalize_columns ::
  "unicode_data \<Rightarrow> table \<Rightarrow> ustr option \<times> ustr option \<times> ustr option" where
  "canonicalize_columns U df =
     (let cols = map_of (rev (map (\<lambda>c. (py_lower U c, c)) (tbl_columns df)));
          text_col =
            (case first_known cols prefer_text_fields of
               Some c \<Rightarrow> Some c
             | None \<Rightarrow> find (tbl_string_dtype df) (tbl_columns df));
          label_col = first_known cols prefer_label_fields;
          id_col = first_known cols id_candidates
      in (text_col, label_col, id_col))"

section \<open>Merge Orchestrator: \<open>merge_all\<close>\<close>

definition INPUT_DIR :: ustr where
  "INPUT_DIR = ascii ''All_datasets/''"

definition OUTPUT_PATH :: ustr where
  "OUTPUT_PATH = ascii ''Merged_dataset.csv''"

definition PER_SOURCE_DIST_OUT :: ustr where
  "PER_SOURCE_DIST_OUT = ascii ''merged_3class_per_source_distribution.csv''"

definition SUMMARY_JSON_OUT :: ustr where
  "SUMMARY_JSON_OUT = ascii ''merged_3class_summary.json''"

definition KEEP_ALL_COLUMNS :: bool where
  "KEEP_ALL_COLUMNS = True"

definition ORIGINAL_TEXT_COL :: ustr where
  "ORIGINAL_TEXT_COL = ascii ''original_text''"

definition NaN :: pyval where
  "NaN = PyObj (ascii ''nan'')"

text \<open>
  \<open>row[col]\<close>.  Every row of a DataFrame has a cell for every column, and the code only
  looks up columns of the frame; a row that lacks the cell reads as missing.
\<close>

definition row_get :: "row \<Rightarrow> ustr \<Rightarrow> pyval" where
  "row_get r c = (case map_of r c of Some v \<Rightarrow> v | None \<Rightarrow> NaN)"

text \<open>
  \<open>df[c] = values\<close>: an existing column keeps its place, a new one goes last.  The new
  cell of a row is computed from the row's index label and its old cells.
\<close>

definition set_column :: "table \<Rightarrow> ustr \<Rightarrow> (ustr \<Rightarrow> row \<Rightarrow> pyval) \<Rightarrow> table" where
  "set_column df c f =
     df\<lparr>tbl_columns :=
          (if c \<in> set (tbl_columns df) then tbl_columns df else tbl_columns df @ [c]),
        tbl_rows := map (\<lambda>(ix, r). (ix, AList.update c (f ix r) r)) (tbl_rows df)\<rparr>"

text \<open>
  \<open>df[c] = df[c].astype(str).fillna('')\<close>: \<open>astype(str)\<close> renders every cell with
  \<open>str\<close> (a missing cell becomes the string \<open>nan\<close>), which leaves \<open>fillna\<close> nothing to
  fill.
\<close>

definition astype_str :: "table \<Rightarrow> ustr \<Rightarrow> table" where
  "astype_str df c = set_column df c (\<lambda>ix r. PyStr (py_str (row_get r c)))"

text \<open>Lines 226 to 237: the text, label and id columns as strings, with the fallbacks.\<close>

definition prepare_columns ::
  "table \<Rightarrow> ustr \<Rightarrow> ustr option \<Rightarrow> ustr option \<Rightarrow> table \<times> ustr \<times> ustr" where
  "prepare_columns df text_col label_col id_col =
     (let df1 = astype_str df text_col;
          (df2, label_col') =
            (case label_col of
               Some l \<Rightarrow> (astype_str df1 l, l)
             | None \<Rightarrow> (set_column df1 (ascii ''__no_label__'') (\<lambda>ix r. PyStr []),
                         ascii ''__no_label__''));
          (df3, id_col') =
            (case id_col of
               Some i \<Rightarrow> (astype_str df2 i, i)
             | None \<Rightarrow> (set_column df2 (ascii ''_auto_idx_'') (\<lambda>ix r. PyStr ix),
                         ascii ''_auto_idx_''))
      in (df3, label_col', id_col'))"

text \<open>The body of the loop over \<open>df.iterrows()\<close>; \<open>None\<close> is the \<open>continue\<close>.\<close>

definition make_data_row ::
  "unicode_data \<Rightarrow> label_map \<Rightarrow> ustr list \<Rightarrow> ustr \<Rightarrow> ustr \<Rightarrow> ustr \<Rightarrow> ustr \<Rightarrow> row \<Rightarrow> row option" where
  "make_data_row U label_map columns src text_col label_col id_col row =
     (let raw_text = row_get row text_col;
          raw_label = (if label_col \<in> set (map fst row) then row_get row label_col
                       else PyStr [])
      in case map_label_for_row U src raw_label label_map of
           None \<Rightarrow> None
         | Some mapped \<Rightarrow>
             (let normalized_text = arabic_normalize U raw_text;
                  data_row =
                    [(ascii ''global_id'', PyStr (src @ ascii ''_'' @ py_str (row_get row id_col))),
                     (ascii ''source'', PyStr src),
                     (ascii ''text'', PyStr normalized_text),
                     (ascii ''label_orig'', raw_label),
                     (ascii ''label'', PyStr mapped)]
              in Some (if KEEP_ALL_COLUMNS
                       then foldl (\<lambda>d col. AList.update (ascii ''orig__'' @ col) (row_get row col) d)
                              data_row columns
                       else data_row)))"

definition rows_from_file ::
  "unicode_data \<Rightarrow> label_map \<Rightarrow> ustr \<Rightarrow> table \<Rightarrow> ustr \<Rightarrow> ustr option \<Rightarrow> ustr option \<Rightarrow> row list" where
  "rows_from_file U label_map fname df text_col label_col id_col =
     (let (df3, label_col', id_col') = prepare_columns df text_col label_col id_col
      in List.map_filter
           (make_data_row U label_map (tbl_columns df3) fname text_col label_col' id_col')
           (map snd (tbl_rows df3)))"

text \<open>What the run prints, and the state of the loop over the files.\<close>

datatype log_event =
    FoundFiles nat ustr
  | WarnCouldNotRead ustr exn
  | WarnNoTextColumn ustr
  | Processed ustr nat
  | InfoDuplicates nat
  | InfoNoDuplicates
  | WarnBadLabels "ustr list"
  | SavedMerged ustr nat
  | SavedPerSource ustr
  | SavedSummary ustr

record merge_state =
  all_rows :: "row list"
  per_file_counts :: "(ustr \<times> nat) list"
  printed :: "log_event list"

record env =
  unicode :: unicode_data
  glob :: "ustr \<Rightarrow> ustr list"
  pandas :: pandas_io

definition file_stem :: "ustr \<Rightarrow> ustr" where
  "file_stem fpath = fst (splitext (basename fpath))"

text \<open>One iteration of \<open>for fpath in files\<close>; a \<open>dict\<close> keeps its keys in insertion order.\<close>

definition merge_step :: "env \<Rightarrow> label_map \<Rightarrow> merge_state \<Rightarrow> ustr \<Rightarrow> merge_state" where
  "merge_step E label_map st fpath =
     (case safe_read_table (unicode E) (pandas E) fpath of
        Inl e \<Rightarrow> st\<lparr>printed := printed st @ [WarnCouldNotRead fpath e]\<rparr>
      | Inr df \<Rightarrow>
          (let fname = file_stem fpath;
               (text_col, label_col, id_col) = canonicalize_columns (unicode E) df
           in case text_col of
                None \<Rightarrow> st\<lparr>printed := printed st @ [WarnNoTextColumn fpath]\<rparr>
              | Some tc \<Rightarrow>
                  (let rows = rows_from_file (unicode E) label_map fname df tc label_col id_col
                   in st\<lparr>all_rows := all_rows st @ rows,
                         per_file_counts := AList.update fname (length rows) (per_file_counts st),
                         printed := printed st @ [Processed fpath (length rows)]\<rparr>)))"

definition collect_rows :: "env \<Rightarrow> merge_state" where
  "collect_rows E =
     (let label_map = get_label_map;
          files = find_files (glob E) INPUT_DIR
      in foldl (merge_step E label_map)
           \<lparr>all_rows = [], per_file_counts = [], printed = [FoundFiles (length files) INPUT_DIR]\<rparr>
           files)"

text \<open>
  \<open>pd.DataFrame(all_rows)\<close> has the union of the rows' keys as columns, in the order of
  first appearance.
\<close>

definition frame_columns :: "row list \<Rightarrow> ustr list" where
  "frame_columns rows = rev (remdups (rev (concat (map (map fst) rows))))"

definition column_strs :: "row list \<Rightarrow> ustr \<Rightarrow> ustr list" where
  "column_strs rows c = map (\<lambda>r. py_str (row_get r c)) rows"

text \<open>\<open>value_counts\<close>: the distinct values with their counts, most frequent first.\<close>

definition value_counts :: "ustr list \<Rightarrow> (ustr \<times> nat) list" where
  "value_counts xs =
     sort_key (\<lambda>(l, n). - int n) (map (\<lambda>l. (l, count_list xs l)) (rev (remdups (rev xs))))"

text \<open>
  \<open>groupby('source')['label'].value_counts().unstack(fill_value=0)\<close> with the \<open>total\<close>
  column, sorted by it in descending order: one entry per source with its count for each
  label that occurs in the frame.
\<close>

definition per_source_distribution :: "row list \<Rightarrow> (ustr \<times> (ustr \<times> nat) list \<times> nat) list" where
  "per_source_distribution merged =
     (let pairs = zip (column_strs merged (ascii ''source'')) (column_strs merged (ascii ''label''));
          sources = sort (remdups (map fst pairs));
          labels = sort (remdups (map snd pairs));
          per_src = map (\<lambda>s. let counts = map (\<lambda>l. (l, count_list pairs (s, l))) labels
                              in (s, counts, sum_list (map snd counts))) sources
      in sort_key (\<lambda>(s, counts, total). - int total) per_src)"

record summary =
  summary_rows :: nat
  label_counts :: "(ustr \<times> nat) list"
  files_processed_counts :: "(ustr \<times> nat) list"

datatype artifact =
    MergedTable "row list"
  | PerSourceTable "(ustr \<times> (ustr \<times> nat) list \<times> nat) list"
  | SummaryJson summary

text \<open>Lines 271 to 285: the merged frame as it is written.\<close>

definition finalize_frame :: "row list \<Rightarrow> row list \<times> log_event list" where
  "finalize_frame rows =
     (let merged = rows;
          texts = column_strs merged (ascii ''text'');
          duplicates_count = length texts - length (remdups texts);
          log1 = (if duplicates_count > 0 then [InfoDuplicates duplicates_count]
                  else [InfoNoDuplicates]);
          bad = filter (\<lambda>l. l \<notin> CANONICAL_LABELS) (remdups (column_strs merged (ascii ''label'')));
          (merged, log2) =
            (if bad \<noteq> [] then
               (map (\<lambda>r. AList.update (ascii ''label'')
                           (if py_str (row_get r (ascii ''label'')) \<in> CANONICAL_LABELS
                            then row_get r (ascii ''label'') else PyStr DEFAULT_MAP_TARGET) r) merged,
                [WarnBadLabels bad])
             else (merged, []));
          merged =
            (if ORIGINAL_TEXT_COL \<notin> set (frame_columns merged)
             then map (\<lambda>r. AList.update ORIGINAL_TEXT_COL (row_get r (ascii ''text'')) r) merged
             else merged)
      in (merged, log1 @ log2))"

text \<open>
  The whole run: the value returned or the exception raised, what was printed, and the
  files written, in the order of writing.
\<close>

record outcome =
  returned :: "exn + row list"
  stdout :: "log_event list"
  written :: "(ustr \<times> artifact) list"

definition merge_all :: "env \<Rightarrow> outcome" where
  "merge_all E =
     (let st = collect_rows E in
      if length (all_rows st) = 0 then
        \<lparr>returned = Inl (RuntimeError (ascii ''No rows collected. Check INPUT_DIR and LABEL_MAP.'')),
         stdout = printed st, written = []\<rparr>
      else
        (let (merged, log) = finalize_frame (all_rows st);
             per_src = per_source_distribution merged;
             summary = \<lparr>summary_rows = length merged,
                        label_counts = value_counts (column_strs merged (ascii ''label'')),
                        files_processed_counts = per_file_counts st\<rparr>
         in \<lparr>returned = Inr merged,
             stdout = printed st @ log @
               [SavedMerged OUTPUT_PATH (length merged), SavedPerSource PER_SOURCE_DIST_OUT,
                SavedSummary SUMMARY_JSON_OUT],
             written = [(OUTPUT_PATH, MergedTable merged),
                        (PER_SOURCE_DIST_OUT, PerSourceTable per_src),
                        (SUMMARY_JSON_OUT, SummaryJson summary)]\<rparr>))"

section \<open>Auxiliary definitions for the properties\<close>

text \<open>
  A string in which every whitespace character is a single space that is not followed by
  another whitespace character.
\<close>

fun ws_single :: "ustr \<Rightarrow> bool" where
  "ws_single [] = True"
| "ws_single [c] = (py_isspace c \<longrightarrow> c = 0x20)"
| "ws_single (c # d # cs) =
     ((py_isspace c \<longrightarrow> c = 0x20 \<and> \<not> py_isspace d) \<and> ws_single (d # cs))"

text \<open>
  An excerpt of the Unicode data for the concrete runs below: NFKC composes \<open>e\<close> followed
  by U+0301 (combining acute) into U+00E9 and leaves the other strings used below as
  they are (tatweel between the two blocks the composition; the precomposed alef forms,
  alef maqsura and the Arabic marks on their own are stable), and \<open>lower\<close> leaves the
  non-ASCII strings used below unchanged.
\<close>

definition sample_unicode :: unicode_data where
  "sample_unicode =
     \<lparr>nfkc_tbl = (\<lambda>s. if s = [0x65, 0x301] then [0xE9] else s), lower_tbl = (\<lambda>s. s)\<rparr>"

text \<open>A label map with a per-source table and a global one that disagree on a label.\<close>

definition sample_label_map :: label_map where
  "sample_label_map =
     [ascii ''D1'' \<mapsto> map_of [(ascii ''x'', ascii ''profanity'')],
      ascii ''all'' \<mapsto> map_of [(ascii ''x'', ascii ''normal''), (ascii ''0'', ascii ''normal'')]]"

text \<open>\<open>str\<close> of a non-negative \<open>int\<close>, and the labels of the default index of a frame with
  \<open>n\<close> rows.\<close>

fun digits :: "nat \<Rightarrow> ustr" where
  "digits n = (if n < 10 then [0x30 + n] else digits (n div 10) @ [0x30 + n mod 10])"

declare digits.simps [simp del]

definition range_index :: "nat \<Rightarrow> ustr list" where
  "range_index n = map digits [0..<n]"

text \<open>A table as \<open>read_csv\<close> returns it for a file with the single column \<open>text\<close>: string
  cells and the default index.\<close>

definition text_table :: "ustr list \<Rightarrow> table" where
  "text_table texts =
     \<lparr>tbl_columns = [ascii ''text''], tbl_string_dtype = (\<lambda>c. True),
      tbl_rows = map (\<lambda>(ix, t). (ix, [(ascii ''text'', PyStr t)]))
                   (zip (range_index (length texts)) texts)\<rparr>"

text \<open>A file system with the given \<open>.csv\<close> files under \<open>All_datasets/\<close>, each with what
  \<open>read_csv\<close> does on it under every encoding, and no file of another kind.\<close>

definition sample_env :: "(ustr \<times> (exn + table)) list \<Rightarrow> env" where
  "sample_env files =
     \<lparr>unicode = sample_unicode,
      glob = (\<lambda>pat. if pat = ascii ''All_datasets/**/*.csv'' then map fst files else []),
      pandas =
        \<lparr>read_csv = (\<lambda>path sep enc. case map_of files path of
                        Some r \<Rightarrow> r
                      | None \<Rightarrow> Inl (OtherError (ascii ''No such file or directory''))),
         read_json = (\<lambda>path lines. Inl (OtherError (ascii ''No such file or directory''))),
         read_excel = (\<lambda>path. Inl (OtherError (ascii ''No such file or directory''))),
         read_parquet = (\<lambda>path. Inl (OtherError (ascii ''No such file or directory'')))\<rparr>\<rparr>"

text \<open>An empty \<open>A.csv\<close>, on which \<open>read_csv\<close> raises \<open>EmptyDataError\<close> (a \<open>ValueError\<close>), and
  two readable files with one row each.\<close>

definition skip_env :: env where
  "skip_env = sample_env
     [(ascii ''All_datasets/A.csv'', Inl (ValueError (ascii ''No columns to parse from file''))),
      (ascii ''All_datasets/B.csv'', Inr (text_table [ascii ''a  b''])),
      (ascii ''All_datasets/C.csv'', Inr (text_table [[0x623, 0x647, 0x644, 0x627, 0x64B]]))]"

text \<open>Two files with the same name in two subdirectories.\<close>

definition same_stem_env :: env where
  "same_stem_env = sample_env
     [(ascii ''All_datasets/a/D.csv'', Inr (text_table [ascii ''hi''])),
      (ascii ''All_datasets/b/D.csv'', Inr (text_table [ascii ''yo'']))]"

text \<open>A directory whose only file cannot be read.\<close>

definition fail_env :: env where
  "fail_env = sample_env
     [(ascii ''All_datasets/A.csv'', Inl (ValueError (ascii ''No columns to parse from file'')))]"

text \<open>The row collected from a one-column text table whose label resolves to \<open>normal\<close>.\<close>

definition text_row :: "ustr \<Rightarrow> ustr \<Rightarrow> ustr \<Rightarrow> row" where
  "text_row src t normalized =
     [(ascii ''global_id'', PyStr (src @ ascii ''_0'')),
      (ascii ''source'', PyStr src),
      (ascii ''text'', PyStr normalized),
      (ascii ''label_orig'', PyStr []),
      (ascii ''label'', PyStr (ascii ''normal'')),
      (ascii ''orig__text'', PyStr t),
      (ascii ''orig____no_label__'', PyStr []),
      (ascii ''orig___auto_idx_'', PyStr (ascii ''0''))]"

text \<open>The rows that the loop collects from one file: \<open>None\<close> when the file is skipped
  (it cannot be loaded, or no text column is found), the list of its rows otherwise.\<close>

definition processed_rows :: "env \<Rightarrow> label_map \<Rightarrow> ustr \<Rightarrow> row list option" where
  "processed_rows E label_map fpath =
     (case safe_read_table (unicode E) (pandas E) fpath of
        Inl e \<Rightarrow> None
      | Inr df \<Rightarrow>
          (case canonicalize_columns (unicode E) df of
             (None, label_col, id_col) \<Rightarrow> None
           | (Some tc, label_col, id_col) \<Rightarrow>
               Some (rows_from_file (unicode E) label_map (file_stem fpath) df tc label_col id_col)))"

text \<open>The rows a file contributes, none when it is skipped.\<close>

definition rows_of :: "env \<Rightarrow> label_map \<Rightarrow> ustr \<Rightarrow> row list" where
  "rows_of E lm f = (case processed_rows E lm f of None \<Rightarrow> [] | Some rs \<Rightarrow> rs)"

text \<open>The per-file row ids, as the loop reads them: \<open>row[id_col]\<close> after lines 226 to 237.\<close>

definition file_row_ids :: "unicode_data \<Rightarrow> table \<Rightarrow> ustr list" where
  "file_row_ids U df =
     (case canonicalize_columns U df of
        (None, label_col, id_col) \<Rightarrow> []
      | (Some tc, label_col, id_col) \<Rightarrow>
          (let (df3, label_col', id_col') = prepare_columns df tc label_col id_col
           in map (\<lambda>(ix, r). py_str (row_get r id_col')) (tbl_rows df3)))"

text \<open>The frame that the run returns, empty when it raises.\<close>

definition merged_rows :: "outcome \<Rightarrow> row list" where
  "merged_rows out = (case returned out of Inl e \<Rightarrow> [] | Inr merged \<Rightarrow> merged)"

text \<open>The number that a string of decimal digits denotes.\<close>

definition digits_value :: "ustr \<Rightarrow> nat" where
  "digits_value ds = foldl (\<lambda>a d. 10 * a + (d - 0x30)) 0 ds"

text \<open>The summary that the run wrote, if it wrote one.\<close>

definition run_summary :: "outcome \<Rightarrow> summary option" where
  "run_summary out =
     (case map_of (written out) SUMMARY_JSON_OUT of
        Some (SummaryJson s) \<Rightarrow> Some s
      | _ \<Rightarrow> None)"

section \<open>Properties of the Text Normalizer\<close>

lemma isspace_0x20: "py_isspace 0x20"
  by (simp add: py_isspace_def)

lemma re_sub_ws_hd_nonspace:
  "\<not> py_isspace c \<Longrightarrow> re_sub_ws (c # cs) = c # re_sub_ws cs"
  by simp

lemma re_sub_ws_after_drop:
  "re_sub_ws (dropWhile py_isspace cs) = [] \<or>
   \<not> py_isspace (hd (re_sub_ws (dropWhile py_isspace cs)))"
proof (cases "dropWhile py_isspace cs")
  case Nil
  show ?thesis unfolding Nil by simp
next
  case (Cons d ds)
  then have "\<not> py_isspace d"
    by (metis hd_dropWhile list.sel(1) list.distinct(1))
  with Cons show ?thesis by simp
qed

lemma ws_single_Cons:
  "ws_single (c # r) \<longleftrightarrow>
     (py_isspace c \<longrightarrow> c = 0x20 \<and> (r = [] \<or> \<not> py_isspace (hd r))) \<and> ws_single r"
  by (cases r) auto

lemma ws_single_re_sub_ws: "ws_single (re_sub_ws s)"
proof (induction s rule: re_sub_ws.induct)
  case 1
  show ?case by simp
next
  case (2 c cs)
  show ?case
  proof (cases "py_isspace c")
    case True
    with 2 re_sub_ws_after_drop [of cs] show ?thesis
      by (simp add: ws_single_Cons del: ws_single.simps re_sub_ws.simps add: re_sub_ws.simps(2))
  next
    case False
    with 2 show ?thesis
      by (simp add: ws_single_Cons)
  qed
qed

lemma re_sub_ws_fixed: "ws_single r \<Longrightarrow> re_sub_ws r = r"
proof (induction r rule: ws_single.induct)
  case 1
  show ?case by simp
next
  case (2 c)
  then show ?case by simp
next
  case (3 c d cs)
  then show ?case by auto
qed

lemma ws_single_append: "ws_single (xs @ ys) \<Longrightarrow> ws_single xs \<and> ws_single ys"
proof (induction xs rule: ws_single.induct)
  case 1
  then show ?case by simp
next
  case (2 c)
  then show ?case by (cases ys) auto
next
  case (3 c d cs)
  then show ?case by auto
qed

lemma ws_single_dropWhile: "ws_single s \<Longrightarrow> ws_single (dropWhile P s)"
  using ws_single_append [of "takeWhile P s" "dropWhile P s"] by simp

lemma drop_trailing_prefix:
  "rev (dropWhile P (rev t)) @ rev (takeWhile P (rev t)) = t"
  by (metis rev_append rev_rev_ident takeWhile_dropWhile_id)

lemma ws_single_py_strip: "ws_single s \<Longrightarrow> ws_single (py_strip s)"
proof -
  assume "ws_single s"
  then have t: "ws_single (dropWhile py_isspace s)"
    by (rule ws_single_dropWhile)
  from drop_trailing_prefix [of py_isspace "dropWhile py_isspace s"] t
  have "ws_single (rev (dropWhile py_isspace (rev (dropWhile py_isspace s))) @
         rev (takeWhile py_isspace (rev (dropWhile py_isspace s))))"
    by simp
  then show ?thesis
    unfolding py_strip_def by (blast dest: ws_single_append)
qed

lemma py_strip_ends:
  assumes "py_strip s \<noteq> []"
  shows "\<not> py_isspace (hd (py_strip s))" and "\<not> py_isspace (last (py_strip s))"
proof -
  let ?t = "dropWhile py_isspace s"
  let ?u = "dropWhile py_isspace (rev ?t)"
  from assms have u: "?u \<noteq> []" by (simp add: py_strip_def)
  then have "\<not> py_isspace (hd ?u)" by (rule hd_dropWhile)
  with u show "\<not> py_isspace (last (py_strip s))"
    by (simp add: py_strip_def last_rev)
  from u have t: "?t \<noteq> []" by (auto dest: set_dropWhileD)
  then have ht: "\<not> py_isspace (hd ?t)" by (rule hd_dropWhile)
  have "rev ?t = takeWhile py_isspace (rev ?t) @ ?u" by simp
  with u have "last (rev ?t) = last ?u"
    by (metis last_appendR)
  with t have "last ?u = hd ?t" by (simp add: last_rev)
  with u ht show "\<not> py_isspace (hd (py_strip s))"
    by (simp add: py_strip_def hd_rev)
qed

lemma dropWhile_hd_id: "r = [] \<or> \<not> P (hd r) \<Longrightarrow> dropWhile P r = r"
  by (cases r) auto

lemma py_strip_fixed:
  assumes "r = [] \<or> (\<not> py_isspace (hd r) \<and> \<not> py_isspace (last r))"
  shows "py_strip r = r"
proof -
  from assms have 1: "dropWhile py_isspace r = r"
    by (auto intro: dropWhile_hd_id)
  from assms have "rev r = [] \<or> \<not> py_isspace (hd (rev r))"
    by (auto simp: hd_rev)
  then have "dropWhile py_isspace (rev r) = rev r"
    by (rule dropWhile_hd_id)
  with 1 show ?thesis by (simp add: py_strip_def)
qed

lemma py_strip_idem: "py_strip (py_strip s) = py_strip s"
  using py_strip_ends [of s] by (intro py_strip_fixed) blast

lemma set_re_sub_ws: "set (re_sub_ws s) \<subseteq> insert 0x20 (set s)"
proof (induction s rule: re_sub_ws.induct)
  case 1
  show ?case by simp
next
  case (2 c cs)
  have "set (dropWhile py_isspace cs) \<subseteq> set cs"
    by (auto dest: set_dropWhileD)
  with 2 show ?case by (cases "py_isspace c") auto
qed

lemma set_py_strip: "set (py_strip s) \<subseteq> set s"
  by (auto simp: py_strip_def dest!: set_dropWhileD)

lemma fold_orthography_chars:
  assumes "c \<in> set (fold_orthography s)"
  shows "c \<noteq> 0x640 \<and> \<not> is_alef_variant c \<and> \<not> is_diacritic c \<and> c \<noteq> 0x649"
proof -
  let ?t = "map (\<lambda>c. if c = 0x649 then 0x64A else c)
             (filter (\<lambda>c. \<not> is_diacritic c)
               (map (\<lambda>c. if is_alef_variant c then 0x627 else c)
                 (filter (\<lambda>c. c \<noteq> 0x640) s)))"
  from assms have "c \<in> set (py_strip (re_sub_ws ?t))"
    by (simp add: fold_orthography_def)
  with set_py_strip set_re_sub_ws have "c = 0x20 \<or> c \<in> set ?t"
    by blast
  then show ?thesis
    by (auto simp: is_alef_variant_def is_diacritic_def split: if_splits)
qed

lemma fold_orthography_fixed:
  assumes clean: "\<forall>c\<in>set r. c \<noteq> 0x640 \<and> \<not> is_alef_variant c \<and> \<not> is_diacritic c \<and> c \<noteq> 0x649"
    and ws: "ws_single r" and strip: "py_strip r = r"
  shows "fold_orthography r = r"
proof -
  from clean have 1: "filter (\<lambda>c. c \<noteq> 0x640) r = r"
    by (simp add: filter_id_conv)
  from clean have 2: "map (\<lambda>c. if is_alef_variant c then 0x627 else c) r = r"
    by (simp add: map_idI)
  from clean have 3: "filter (\<lambda>c. \<not> is_diacritic c) r = r"
    by (simp add: filter_id_conv)
  from clean have 4: "map (\<lambda>c. if c = 0x649 then 0x64A else c) r = r"
    by (simp add: map_idI)
  from ws have 5: "re_sub_ws r = r"
    by (rule re_sub_ws_fixed)
  show ?thesis
    by (simp add: fold_orthography_def 1 2 3 4 5 strip)
qed

lemma ws_single_fold_orthography: "ws_single (fold_orthography s)"
  by (simp add: fold_orthography_def ws_single_py_strip ws_single_re_sub_ws)

lemma py_strip_fold_orthography: "py_strip (fold_orthography s) = fold_orthography s"
  by (simp add: fold_orthography_def py_strip_idem)

lemma fold_orthography_idem: "fold_orthography (fold_orthography s) = fold_orthography s"
  by (intro fold_orthography_fixed ballI fold_orthography_chars
        ws_single_fold_orthography py_strip_fold_orthography)

lemma ws_single_nth:
  "ws_single r \<Longrightarrow> Suc i < length r \<Longrightarrow> \<not> (py_isspace (r ! i) \<and> py_isspace (r ! Suc i))"
proof (induction r arbitrary: i rule: ws_single.induct)
  case 1
  then show ?case by simp
next
  case (2 c)
  then show ?case by simp
next
  case (3 c d cs)
  then show ?case by (cases i) auto
qed

lemma ws_single_space: "ws_single r \<Longrightarrow> c \<in> set r \<Longrightarrow> py_isspace c \<Longrightarrow> c = 0x20"
  by (induction r rule: ws_single.induct) auto


lemmas normalizer_defs =
  arabic_normalize_def fold_orthography_def normalize_NFKC_def is_ascii_def
  is_alef_variant_def is_diacritic_def py_strip_def py_isspace_def

text \<open>
  Claim C9.  Given that NFKC leaves the three precomposed alef forms U+0625, U+0623,
  U+0622 as they are (a fact of the Unicode data), \<open>arabic_normalize\<close> maps the string
  of these three characters to three bare alefs U+0627.
\<close>

theorem arabic_normalize_alef_variants:
  "nfkc_tbl U [0x625, 0x623, 0x622] = [0x625, 0x623, 0x622] \<Longrightarrow>
   arabic_normalize U (PyStr [0x625, 0x623, 0x622]) = [0x627, 0x627, 0x627]"
  by (simp add: normalizer_defs)

theorem arabic_normalize_alef_variants_witness:
  "nfkc_tbl sample_unicode [0x625, 0x623, 0x622] = [0x625, 0x623, 0x622] \<and>
   arabic_normalize sample_unicode (PyStr [0x625, 0x623, 0x622]) = [0x627, 0x627, 0x627]"
proof -
  have h: "nfkc_tbl sample_unicode [0x625, 0x623, 0x622] = [0x625, 0x623, 0x622]"
    by (simp add: sample_unicode_def)
  from h arabic_normalize_alef_variants [OF h] show ?thesis by simp
qed

text \<open>
  Claim C10.  For every input value, the output of \<open>arabic_normalize\<close> has no tatweel,
  no character in U+064B..U+065F and no U+0670, no alef maqsura, no whitespace at either
  end, no two adjacent whitespace characters, and no whitespace character other than
  the space.
\<close>

theorem arabic_normalize_output_clean:
  "0x640 \<notin> set (arabic_normalize U v) \<and>
   (\<forall>c \<in> set (arabic_normalize U v). \<not> (0x64B \<le> c \<and> c \<le> 0x65F) \<and> c \<noteq> 0x670) \<and>
   0x649 \<notin> set (arabic_normalize U v) \<and>
   (arabic_normalize U v \<noteq> [] \<longrightarrow>
      \<not> py_isspace (hd (arabic_normalize U v)) \<and> \<not> py_isspace (last (arabic_normalize U v))) \<and>
   (\<forall>i. Suc i < length (arabic_normalize U v) \<longrightarrow>
      \<not> (py_isspace (arabic_normalize U v ! i) \<and> py_isspace (arabic_normalize U v ! Suc i))) \<and>
   (\<forall>c \<in> set (arabic_normalize U v). py_isspace c \<longrightarrow> c = 0x20)"
proof -
  obtain s where r: "arabic_normalize U v = fold_orthography s"
    by (simp add: arabic_normalize_def)
  have chars: "\<And>c. c \<in> set (fold_orthography s) \<Longrightarrow>
      c \<noteq> 0x640 \<and> \<not> is_diacritic c \<and> c \<noteq> 0x649"
    using fold_orthography_chars by blast
  have ws: "ws_single (fold_orthography s)"
    by (rule ws_single_fold_orthography)
  have ends: "fold_orthography s \<noteq> [] \<Longrightarrow>
      \<not> py_isspace (hd (fold_orthography s)) \<and> \<not> py_isspace (last (fold_orthography s))"
    using py_strip_ends [of "re_sub_ws t" for t] by (simp add: fold_orthography_def Let_def)
  have 1: "0x640 \<notin> set (fold_orthography s)" using chars by blast
  have 2: "\<forall>c \<in> set (fold_orthography s). \<not> (0x64B \<le> c \<and> c \<le> 0x65F) \<and> c \<noteq> 0x670"
    using chars by (auto simp: is_diacritic_def)
  have 3: "0x649 \<notin> set (fold_orthography s)" using chars by blast
  have 5: "\<forall>i. Suc i < length (fold_orthography s) \<longrightarrow>
      \<not> (py_isspace (fold_orthography s ! i) \<and> py_isspace (fold_orthography s ! Suc i))"
    using ws_single_nth [OF ws] by blast
  have 6: "\<forall>c \<in> set (fold_orthography s). py_isspace c \<longrightarrow> c = 0x20"
    using ws_single_space [OF ws] by blast
  from 1 2 3 ends 5 6 show ?thesis unfolding r by blast
qed

theorem arabic_normalize_output_clean_witness:
  "arabic_normalize sample_unicode (PyStr [0x20, 0x640, 0x649, 0x64B, 0x9, 0x20, 0x61, 0x670, 0xA])
     = [0x64A, 0x20, 0x61] \<and>
   0x640 \<notin> set (arabic_normalize sample_unicode
      (PyStr [0x20, 0x640, 0x649, 0x64B, 0x9, 0x20, 0x61, 0x670, 0xA])) \<and>
   0x649 \<notin> set (arabic_normalize sample_unicode
      (PyStr [0x20, 0x640, 0x649, 0x64B, 0x9, 0x20, 0x61, 0x670, 0xA]))"
proof -
  have "arabic_normalize sample_unicode (PyStr [0x20, 0x640, 0x649, 0x64B, 0x9, 0x20, 0x61, 0x670, 0xA])
     = [0x64A, 0x20, 0x61]"
    by (simp add: normalizer_defs sample_unicode_def)
  with arabic_normalize_output_clean
    [of sample_unicode "PyStr [0x20, 0x640, 0x649, 0x64B, 0x9, 0x20, 0x61, 0x670, 0xA]"]
  show ?thesis by simp
qed

text \<open>
  Claim C5, as stated, fails: tatweel keeps \<open>e\<close> and a combining acute apart during the
  first pass's NFKC step, its removal brings them together, and the second pass's NFKC
  composes them.
\<close>

theorem arabic_normalize_not_idempotent:
  "arabic_normalize sample_unicode
     (PyStr (arabic_normalize sample_unicode (PyStr [0x65, 0x640, 0x301])))
   \<noteq> arabic_normalize sample_unicode (PyStr [0x65, 0x640, 0x301])"
  by (simp add: normalizer_defs sample_unicode_def)

text \<open>
  Claim C5, amended.  For every string whose normalized form is left unchanged by NFKC,
  normalizing the normalized form again yields the same string.
\<close>

theorem arabic_normalize_idempotent_if_nfkc_stable:
  "normalize_NFKC U (arabic_normalize U (PyStr s)) = arabic_normalize U (PyStr s) \<Longrightarrow>
   arabic_normalize U (PyStr (arabic_normalize U (PyStr s))) = arabic_normalize U (PyStr s)"
  by (simp add: arabic_normalize_def fold_orthography_idem)

theorem arabic_normalize_idempotent_if_nfkc_stable_witness:
  "normalize_NFKC sample_unicode
     (arabic_normalize sample_unicode (PyStr [0x625, 0x640, 0x20, 0x20, 0x649]))
     = arabic_normalize sample_unicode (PyStr [0x625, 0x640, 0x20, 0x20, 0x649]) \<and>
   arabic_normalize sample_unicode
     (PyStr (arabic_normalize sample_unicode (PyStr [0x625, 0x640, 0x20, 0x20, 0x649])))
     = arabic_normalize sample_unicode (PyStr [0x625, 0x640, 0x20, 0x20, 0x649]) \<and>
   arabic_normalize sample_unicode (PyStr [0x625, 0x640, 0x20, 0x20, 0x649]) = [0x627, 0x20, 0x64A]"
proof -
  have r: "arabic_normalize sample_unicode (PyStr [0x625, 0x640, 0x20, 0x20, 0x649]) = [0x627, 0x20, 0x64A]"
    by (simp add: normalizer_defs sample_unicode_def)
  have h: "normalize_NFKC sample_unicode
     (arabic_normalize sample_unicode (PyStr [0x625, 0x640, 0x20, 0x20, 0x649]))
     = arabic_normalize sample_unicode (PyStr [0x625, 0x640, 0x20, 0x20, 0x649])"
    unfolding r by (simp add: normalize_NFKC_def is_ascii_def sample_unicode_def)
  from h r arabic_normalize_idempotent_if_nfkc_stable [OF h] show ?thesis by simp
qed

section \<open>Properties of the Label Mapper\<close>

lemma default_canonical: "DEFAULT_MAP_TARGET \<in> CANONICAL_LABELS"
  by (simp add: DEFAULT_MAP_TARGET_def CANONICAL_LABELS_def)

lemma canonical_lower_strip:
  "v \<in> CANONICAL_LABELS \<Longrightarrow> py_strip (py_lower U v) = v"
  by (auto simp: CANONICAL_LABELS_def py_lower_def is_ascii_def ascii_lower_def ascii_def
        py_strip_def py_isspace_def)

text \<open>
  Claim C2.  For every source, every raw label value (\<open>None\<close>, a string, any other
  object) and every label map, \<open>map_label_for_row\<close> returns a label, and the label is
  one of \<open>normal\<close>, \<open>offensive\<close>, \<open>profanity\<close>.
\<close>

theorem map_label_for_row_total:
  "\<exists>l. map_label_for_row U src lbl_raw label_map = Some l \<and> l \<in> CANONICAL_LABELS"
  using default_canonical by (simp add: map_label_for_row_def Let_def DROP_UNMAPPED_def)

theorem map_label_for_row_total_witness:
  "map_label_for_row sample_unicode (ascii ''D7'') (PyStr (ascii ''whatever'')) get_label_map
     = Some (ascii ''normal'') \<and>
   ascii ''normal'' \<in> CANONICAL_LABELS"
proof -
  have low: "py_lower sample_unicode (ascii ''whatever'') = ascii ''whatever''"
    by (simp add: py_lower_def is_ascii_def ascii_lower_def ascii_def)
  have strip: "py_strip (ascii ''whatever'') = ascii ''whatever''"
    by (simp add: py_strip_def py_isspace_def ascii_def)
  have kw: "keyword_fallback sample_unicode (ascii ''whatever'') = None"
    unfolding keyword_fallback_def low
    by (simp add: normal_words_def offensive_words_def profanity_words_def ascii_def)
  have l1: "lookup_layer get_label_map (ascii ''D7'') (ascii ''whatever'') = None"
    by (simp add: lookup_layer_def get_label_map_def ascii_def)
  have l2: "lookup_layer get_label_map (ascii ''all'') (ascii ''whatever'') = None"
    by (simp add: lookup_layer_def get_label_map_def ascii_def)
  have l3: "lookup_layer get_label_map [] (ascii ''whatever'') = None"
    by (simp add: lookup_layer_def get_label_map_def ascii_def)
  have ne: "ascii ''whatever'' \<noteq> []" by (simp add: ascii_def)
  have "map_label_for_row sample_unicode (ascii ''D7'') (PyStr (ascii ''whatever'')) get_label_map
     = Some (ascii ''normal'')"
    using canonical_lower_strip [OF default_canonical, of sample_unicode] default_canonical
    by (simp add: map_label_for_row_def py_str_def strip l1 l2 l3 kw ne DROP_UNMAPPED_def
          DEFAULT_MAP_TARGET_def)
  with map_label_for_row_total
    [of sample_unicode "ascii ''D7''" "PyStr (ascii ''whatever'')" get_label_map]
  show ?thesis by auto
qed

text \<open>
  Claim C3.  Let \<open>v\<close> be a canonical label.  If the per-source table of the row's source
  maps the trimmed raw label to \<open>v\<close>, the result is \<open>v\<close>, whatever the global table
  says (the per-source entry wins).  If the per-source table has no entry for it and the
  global table \<open>all\<close> maps it to \<open>v\<close>, the result is \<open>v\<close>.
\<close>

theorem map_label_for_row_override:
  assumes "v \<in> CANONICAL_LABELS"
  shows "(\<forall>tbl. label_map src = Some tbl \<and> tbl (py_strip raw) = Some v \<longrightarrow>
            map_label_for_row U src (PyStr raw) label_map = Some v) \<and>
         (\<forall>glb. (\<forall>tbl. label_map src = Some tbl \<longrightarrow> tbl (py_strip raw) = None) \<and>
            label_map (ascii ''all'') = Some glb \<and> glb (py_strip raw) = Some v \<longrightarrow>
            map_label_for_row U src (PyStr raw) label_map = Some v)"
proof (intro conjI allI impI)
  fix tbl
  assume "label_map src = Some tbl \<and> tbl (py_strip raw) = Some v"
  then have "lookup_layer label_map src (py_strip raw) = Some v"
    by (simp add: lookup_layer_def)
  with assms canonical_lower_strip [OF assms, of U]
  show "map_label_for_row U src (PyStr raw) label_map = Some v"
    by (simp add: map_label_for_row_def py_str_def)
next
  fix glb
  assume h: "(\<forall>tbl. label_map src = Some tbl \<longrightarrow> tbl (py_strip raw) = None) \<and>
     label_map (ascii ''all'') = Some glb \<and> glb (py_strip raw) = Some v"
  then have 1: "lookup_layer label_map src (py_strip raw) = None"
    by (auto simp: lookup_layer_def split: option.splits)
  from h have 2: "lookup_layer label_map (ascii ''all'') (py_strip raw) = Some v"
    by (simp add: lookup_layer_def)
  from 1 2 assms canonical_lower_strip [OF assms, of U]
  show "map_label_for_row U src (PyStr raw) label_map = Some v"
    by (simp add: map_label_for_row_def py_str_def)
qed

lemma strip_x: "py_strip (ascii '' x '') = ascii ''x''"
  by (simp add: py_strip_def py_isspace_def ascii_def)

theorem map_label_for_row_override_witness:
  "ascii ''profanity'' \<in> CANONICAL_LABELS \<and> ascii ''normal'' \<in> CANONICAL_LABELS \<and>
   map_label_for_row sample_unicode (ascii ''D1'') (PyStr (ascii '' x '')) sample_label_map
     = Some (ascii ''profanity'') \<and>
   map_label_for_row sample_unicode (ascii ''D2'') (PyStr (ascii '' x '')) sample_label_map
     = Some (ascii ''normal'')"
proof -
  have p: "ascii ''profanity'' \<in> CANONICAL_LABELS" and n: "ascii ''normal'' \<in> CANONICAL_LABELS"
    by (simp_all add: CANONICAL_LABELS_def)
  have d1: "sample_label_map (ascii ''D1'') = Some (map_of [(ascii ''x'', ascii ''profanity'')])"
    by (simp add: sample_label_map_def ascii_def)
  have d2: "sample_label_map (ascii ''D2'') = None"
    by (simp add: sample_label_map_def ascii_def)
  have al: "sample_label_map (ascii ''all'') =
      Some (map_of [(ascii ''x'', ascii ''normal''), (ascii ''0'', ascii ''normal'')])"
    by (simp add: sample_label_map_def ascii_def)
  from map_label_for_row_override [OF p, of sample_label_map "ascii ''D1''" "ascii '' x ''" sample_unicode]
  have 1: "map_label_for_row sample_unicode (ascii ''D1'') (PyStr (ascii '' x '')) sample_label_map
     = Some (ascii ''profanity'')"
    by (simp add: d1 strip_x)
  from map_label_for_row_override [OF n, of sample_label_map "ascii ''D2''" "ascii '' x ''" sample_unicode]
  have 2: "map_label_for_row sample_unicode (ascii ''D2'') (PyStr (ascii '' x '')) sample_label_map
     = Some (ascii ''normal'')"
    by (simp add: d2 al strip_x)
  from p n 1 2 show ?thesis by simp
qed

section \<open>Properties of the Merge Orchestrator\<close>

lemma ascii_inject: "ascii s = ascii t \<longleftrightarrow> s = t"
  by (simp add: ascii_def inj_map_eq_map [OF inj_of_char])

lemma ascii_append: "ascii s @ ascii t = ascii (s @ t)"
  by (simp add: ascii_def)

lemma ascii_Nil: "ascii s = [] \<longleftrightarrow> s = []" "[] = ascii s \<longleftrightarrow> s = []"
  by (auto simp: ascii_def)

lemmas ascii_simps = ascii_inject ascii_append ascii_Nil

lemma find_files_sample:
  "find_files (glob (sample_env files)) INPUT_DIR = sort (map fst files)"
  by (simp add: find_files_def sample_env_def INPUT_DIR_def default_patterns_def path_join_def ascii_def)

lemma sample_paths_ext:
  "snd (splitext (ascii ''All_datasets/A.csv'')) = ascii ''.csv''"
  "snd (splitext (ascii ''All_datasets/B.csv'')) = ascii ''.csv''"
  "snd (splitext (ascii ''All_datasets/C.csv'')) = ascii ''.csv''"
  "snd (splitext (ascii ''All_datasets/a/D.csv'')) = ascii ''.csv''"
  "snd (splitext (ascii ''All_datasets/b/D.csv'')) = ascii ''.csv''"
  by (simp_all add: splitext_def basename_def ascii_def)

lemma sample_paths_stem:
  "file_stem (ascii ''All_datasets/A.csv'') = ascii ''A''"
  "file_stem (ascii ''All_datasets/B.csv'') = ascii ''B''"
  "file_stem (ascii ''All_datasets/C.csv'') = ascii ''C''"
  "file_stem (ascii ''All_datasets/a/D.csv'') = ascii ''D''"
  "file_stem (ascii ''All_datasets/b/D.csv'') = ascii ''D''"
  by (simp_all add: file_stem_def splitext_def basename_def ascii_def)

lemma lower_csv: "py_lower U (ascii ''.csv'') = ascii ''.csv''"
  by (simp add: py_lower_def is_ascii_def ascii_lower_def ascii_def)

lemma safe_read_table_csv:
  "snd (splitext path) = ascii ''.csv'' \<Longrightarrow>
   safe_read_table U io path = try_encodings io path 0x2C [UTF8, UTF8_SIG, LATIN1, CP1256]"
  by (simp add: safe_read_table_def lower_csv ascii_simps)

lemma safe_read_table_sample:
  "snd (splitext path) = ascii ''.csv'' \<Longrightarrow>
   safe_read_table U (pandas (sample_env files)) path =
     (case map_of files path of
        Some (Inr df) \<Rightarrow> Inr df
      | _ \<Rightarrow> Inl (RuntimeError (ascii ''No active exception to reraise'')))"
  by (simp add: safe_read_table_csv sample_env_def split: option.splits sum.splits)

lemma lower_text: "py_lower U (ascii ''text'') = ascii ''text''"
  by (simp add: py_lower_def is_ascii_def ascii_lower_def ascii_def)

lemma canonicalize_text_table:
  "canonicalize_columns U (text_table texts) = (Some (ascii ''text''), None, None)"
  by (simp add: canonicalize_columns_def text_table_def lower_text prefer_text_fields_def
        prefer_label_fields_def id_candidates_def ascii_simps)

lemma range_index_1: "range_index (Suc 0) = [ascii ''0'']"
  by (simp add: range_index_def digits.simps ascii_def)

lemma map_label_empty:
  assumes "src \<noteq> ascii ''all''"
  shows "map_label_for_row U src (PyStr []) get_label_map = Some (ascii ''normal'')"
proof -
  have l1: "lookup_layer get_label_map src [] = None"
    using assms by (simp add: lookup_layer_def get_label_map_def)
  have l2: "lookup_layer get_label_map (ascii ''all'') [] = Some (ascii ''normal'')"
    by (simp add: lookup_layer_def get_label_map_def ascii_simps)
  have c: "py_strip (py_lower U (ascii ''normal'')) = ascii ''normal''"
    by (simp add: canonical_lower_strip CANONICAL_LABELS_def)
  have s0: "py_strip [] = []"
    by (simp add: py_strip_def)
  show ?thesis
    by (simp add: map_label_for_row_def py_str_def l1 l2 c s0 CANONICAL_LABELS_def)
qed

lemma prepare_text_table:
  "prepare_columns (text_table [t]) (ascii ''text'') None None =
     (\<lparr>tbl_columns = [ascii ''text'', ascii ''__no_label__'', ascii ''_auto_idx_''],
       tbl_string_dtype = (\<lambda>c. True),
       tbl_rows = [(ascii ''0'', [(ascii ''text'', PyStr t), (ascii ''__no_label__'', PyStr []),
                                (ascii ''_auto_idx_'', PyStr (ascii ''0''))])]\<rparr>,
      ascii ''__no_label__'', ascii ''_auto_idx_'')"
  by (simp add: prepare_columns_def astype_str_def set_column_def text_table_def range_index_1
        row_get_def py_str_def ascii_simps)

lemma rows_from_text_table:
  assumes "src \<noteq> ascii ''all''"
  shows "rows_from_file U get_label_map src (text_table [t]) (ascii ''text'') None None =
     [text_row src t (arabic_normalize U (PyStr t))]"
  unfolding rows_from_file_def prepare_text_table
  by (simp add: List.map_filter_simps make_data_row_def Let_def map_label_empty [OF assms]
        KEEP_ALL_COLUMNS_def row_get_def py_str_def text_row_def ascii_simps)

lemma file_row_ids_text_table: "file_row_ids U (text_table [t]) = [ascii ''0'']"
  by (simp add: file_row_ids_def canonicalize_text_table prepare_text_table row_get_def
        py_str_def ascii_simps)

lemma merge_step_unreadable:
  "safe_read_table (unicode E) (pandas E) f = Inl e \<Longrightarrow>
   merge_step E lm st f = st\<lparr>printed := printed st @ [WarnCouldNotRead f e]\<rparr>"
  by (simp add: merge_step_def)

lemma merge_step_text_table:
  assumes "safe_read_table (unicode E) (pandas E) f = Inr (text_table [t])"
    and "file_stem f \<noteq> ascii ''all''"
  shows "merge_step E get_label_map st f =
     st\<lparr>all_rows := all_rows st @
            [text_row (file_stem f) t (arabic_normalize (unicode E) (PyStr t))],
        per_file_counts := AList.update (file_stem f) 1 (per_file_counts st),
        printed := printed st @ [Processed f 1]\<rparr>"
  by (simp add: merge_step_def Let_def assms(1) canonicalize_text_table
        rows_from_text_table [OF assms(2)])

lemma processed_rows_unreadable:
  "safe_read_table (unicode E) (pandas E) f = Inl e \<Longrightarrow> processed_rows E lm f = None"
  by (simp add: processed_rows_def)

lemma processed_rows_text_table:
  assumes "safe_read_table (unicode E) (pandas E) f = Inr (text_table [t])"
    and "file_stem f \<noteq> ascii ''all''"
  shows "processed_rows E get_label_map f =
     Some [text_row (file_stem f) t (arabic_normalize (unicode E) (PyStr t))]"
  by (simp add: processed_rows_def assms(1) canonicalize_text_table
        rows_from_text_table [OF assms(2)])

subsection \<open>The sample runs\<close>

lemma unicode_sample_env: "unicode (sample_env files) = sample_unicode"
  by (simp add: sample_env_def)

lemma normalize_samples:
  "arabic_normalize sample_unicode (PyStr (ascii ''a  b'')) = ascii ''a b''"
  "arabic_normalize sample_unicode (PyStr [0x623, 0x647, 0x644, 0x627, 0x64B]) =
     [0x627, 0x647, 0x644, 0x627]"
  "arabic_normalize sample_unicode (PyStr (ascii ''hi'')) = ascii ''hi''"
  "arabic_normalize sample_unicode (PyStr (ascii ''yo'')) = ascii ''yo''"
  by (simp_all add: normalizer_defs sample_unicode_def ascii_def)

lemma skip_env_files:
  "find_files (glob skip_env) INPUT_DIR =
     [ascii ''All_datasets/A.csv'', ascii ''All_datasets/B.csv'', ascii ''All_datasets/C.csv'']"
  unfolding skip_env_def find_files_sample by (simp add: ascii_def)

lemma skip_env_read:
  "safe_read_table U (pandas skip_env) (ascii ''All_datasets/A.csv'') =
     Inl (RuntimeError (ascii ''No active exception to reraise''))"
  "safe_read_table U (pandas skip_env) (ascii ''All_datasets/B.csv'') =
     Inr (text_table [ascii ''a  b''])"
  "safe_read_table U (pandas skip_env) (ascii ''All_datasets/C.csv'') =
     Inr (text_table [[0x623, 0x647, 0x644, 0x627, 0x64B]])"
  unfolding skip_env_def
  by (simp_all add: safe_read_table_sample sample_paths_ext ascii_simps)

lemma skip_env_collect:
  "collect_rows skip_env =
     \<lparr>all_rows = [text_row (ascii ''B'') (ascii ''a  b'') (ascii ''a b''),
                  text_row (ascii ''C'') [0x623, 0x647, 0x644, 0x627, 0x64B]
                    [0x627, 0x647, 0x644, 0x627]],
      per_file_counts = [(ascii ''B'', 1), (ascii ''C'', 1)],
      printed = [FoundFiles 3 INPUT_DIR,
                 WarnCouldNotRead (ascii ''All_datasets/A.csv'')
                   (RuntimeError (ascii ''No active exception to reraise'')),
                 Processed (ascii ''All_datasets/B.csv'') 1,
                 Processed (ascii ''All_datasets/C.csv'') 1]\<rparr>"
proof -
  have u: "unicode skip_env = sample_unicode"
    by (simp add: skip_env_def unicode_sample_env)
  show ?thesis
    unfolding collect_rows_def Let_def skip_env_files
    by (simp add: merge_step_unreadable skip_env_read merge_step_text_table sample_paths_stem
          u normalize_samples ascii_simps)
qed

subsection \<open>The loop over the files\<close>

lemma merge_step_skipped:
  assumes "processed_rows E lm f = None"
  shows "all_rows (merge_step E lm st f) = all_rows st"
    and "per_file_counts (merge_step E lm st f) = per_file_counts st"
  using assms
  by (auto simp: merge_step_def processed_rows_def Let_def split: sum.splits prod.splits option.splits)

lemma merge_step_processed:
  assumes "processed_rows E lm f = Some rs"
  shows "all_rows (merge_step E lm st f) = all_rows st @ rs"
    and "per_file_counts (merge_step E lm st f) =
           AList.update (file_stem f) (length rs) (per_file_counts st)"
  using assms
  by (auto simp: merge_step_def processed_rows_def Let_def split: sum.splits prod.splits option.splits)

lemma all_rows_foldl:
  "all_rows (foldl (merge_step E lm) st fs) = all_rows st @ concat (map (rows_of E lm) fs)"
proof (induction fs arbitrary: st)
  case Nil
  show ?case by simp
next
  case (Cons f fs)
  show ?case
    by (cases "processed_rows E lm f")
       (simp_all add: Cons.IH merge_step_skipped merge_step_processed rows_of_def)
qed

lemma count_keys_foldl:
  "fst ` set (per_file_counts (foldl (merge_step E lm) st fs)) =
     fst ` set (per_file_counts st) \<union>
     file_stem ` {f \<in> set fs. processed_rows E lm f \<noteq> None}"
proof (induction fs arbitrary: st)
  case Nil
  show ?case by simp
next
  case (Cons f fs)
  show ?case
    by (cases "processed_rows E lm f")
       (auto simp: Cons.IH merge_step_skipped merge_step_processed dom_update)
qed

lemma all_rows_collect:
  "all_rows (collect_rows E) =
     concat (map (rows_of E get_label_map) (find_files (glob E) INPUT_DIR))"
  by (simp add: collect_rows_def Let_def all_rows_foldl)

lemma count_keys_collect:
  "fst ` set (per_file_counts (collect_rows E)) =
     file_stem ` {f \<in> set (find_files (glob E) INPUT_DIR). processed_rows E get_label_map f \<noteq> None}"
  by (simp add: collect_rows_def Let_def count_keys_foldl)


subsection \<open>Global ids\<close>

lemma map_label_for_row_Some:
  "\<exists>l. map_label_for_row U src lbl_raw label_map = Some l"
  by (simp add: map_label_for_row_def Let_def DROP_UNMAPPED_def)

lemma map_of_foldl_update_other:
  "k \<notin> f ` set cs \<Longrightarrow>
   map_of (foldl (\<lambda>d c. AList.update (f c) (g c) d) d0 cs) k = map_of d0 k"
  by (induction cs arbitrary: d0) (auto simp: update_conv')

lemma orig_key_not_global_id: "ascii ''global_id'' \<notin> (\<lambda>c. ascii ''orig__'' @ c) ` set cs"
  by (auto simp: ascii_def)

lemma make_data_row_global_id:
  "\<exists>dr. make_data_row U lm cols src tc lc ic row = Some dr \<and>
     py_str (row_get dr (ascii ''global_id'')) = src @ ascii ''_'' @ py_str (row_get row ic)"
proof -
  obtain l where l: "map_label_for_row U src
      (if lc \<in> set (map fst row) then row_get row lc else PyStr []) lm = Some l"
    using map_label_for_row_Some by blast
  show ?thesis
    unfolding make_data_row_def Let_def l
    by (simp add: KEEP_ALL_COLUMNS_def row_get_def py_str_def
          map_of_foldl_update_other [OF orig_key_not_global_id])
qed

lemma map_filter_all_Some:
  "\<forall>x \<in> set xs. \<exists>y. f x = Some y \<and> h y = g x \<Longrightarrow>
   map h (List.map_filter f xs) = map g xs"
  by (induction xs) (auto simp: List.map_filter_simps)

lemma rows_from_file_global_ids:
  "column_strs (rows_from_file U lm src df tc lc ic) (ascii ''global_id'') =
     (let (df3, lc', ic') = prepare_columns df tc lc ic
      in map (\<lambda>(ix, r). src @ ascii ''_'' @ py_str (row_get r ic')) (tbl_rows df3))"
proof -
  obtain df3 lc' ic' where p: "prepare_columns df tc lc ic = (df3, lc', ic')"
    by (cases "prepare_columns df tc lc ic") auto
  have "map (\<lambda>r. py_str (row_get r (ascii ''global_id'')))
          (List.map_filter (make_data_row U lm (tbl_columns df3) src tc lc' ic')
             (map snd (tbl_rows df3))) =
        map (\<lambda>r. src @ ascii ''_'' @ py_str (row_get r ic')) (map snd (tbl_rows df3))"
    by (rule map_filter_all_Some) (use make_data_row_global_id in blast)
  then show ?thesis
    by (simp add: rows_from_file_def column_strs_def p case_prod_unfold comp_def)
qed

lemma processed_global_ids:
  assumes "processed_rows E lm f = Some rs"
  shows "\<exists>df. safe_read_table (unicode E) (pandas E) f = Inr df \<and>
     column_strs rs (ascii ''global_id'') =
       map (\<lambda>i. file_stem f @ ascii ''_'' @ i) (file_row_ids (unicode E) df)"
proof -
  from assms obtain df where df: "safe_read_table (unicode E) (pandas E) f = Inr df"
    by (auto simp: processed_rows_def split: sum.splits)
  obtain tcol lc ic where c: "canonicalize_columns (unicode E) df = (tcol, lc, ic)"
    by (cases "canonicalize_columns (unicode E) df") auto
  with assms df obtain tc where tc: "tcol = Some tc"
    and rs: "rs = rows_from_file (unicode E) lm (file_stem f) df tc lc ic"
    by (auto simp: processed_rows_def split: option.splits)
  have "column_strs rs (ascii ''global_id'') =
       map (\<lambda>i. file_stem f @ ascii ''_'' @ i) (file_row_ids (unicode E) df)"
    unfolding rs rows_from_file_global_ids file_row_ids_def c tc
    by (simp add: case_prod_unfold Let_def comp_def)
  with df show ?thesis by blast
qed

lemma prefix_before_mark:
  assumes "x \<notin> set xs" "x \<notin> set xs'" "xs @ x # ys = xs' @ x # ys'"
  shows "xs = xs' \<and> ys = ys'"
proof -
  have "takeWhile (\<lambda>c. c \<noteq> x) (xs @ x # ys) = xs" "takeWhile (\<lambda>c. c \<noteq> x) (xs' @ x # ys') = xs'"
    using assms(1,2) by (auto simp: takeWhile_tail)
  with assms(3) have "xs = xs'" by simp
  with assms(3) show ?thesis by simp
qed

lemma underscore_split:
  assumes "0x5F \<notin> set i" "0x5F \<notin> set j" "s @ ascii ''_'' @ i = t @ ascii ''_'' @ j"
  shows "s = t \<and> i = j"
proof -
  from assms(3) have "rev (s @ [0x5F] @ i) = rev (t @ [0x5F] @ j)"
    by (simp add: ascii_def)
  then have "rev i @ 0x5F # rev s = rev j @ 0x5F # rev t"
    by simp
  moreover from assms have "0x5F \<notin> set (rev i)" "0x5F \<notin> set (rev j)"
    by simp_all
  ultimately have "rev i = rev j \<and> rev s = rev t"
    by (rule prefix_before_mark [rotated 2])
  then show ?thesis by simp
qed

lemma distinct_concat_by_key:
  assumes "distinct (map key (filter P fs))"
    and "\<forall>f \<in> set fs. distinct (G f)"
    and "\<forall>f \<in> set fs. \<not> P f \<longrightarrow> G f = []"
    and "\<forall>f \<in> set fs. \<forall>g \<in> set fs. \<forall>x. x \<in> set (G f) \<and> x \<in> set (G g) \<longrightarrow> key f = key g"
  shows "distinct (concat (map G fs))"
  using assms
proof (induction fs)
  case Nil
  show ?case by simp
next
  case (Cons f fs)
  have rest: "distinct (concat (map G fs))"
    using Cons by (auto split: if_splits)
  have disj: "set (G f) \<inter> set (concat (map G fs)) = {}"
  proof (cases "P f")
    case False
    with Cons.prems(3) show ?thesis by simp
  next
    case True
    show ?thesis
    proof (rule ccontr)
      assume "set (G f) \<inter> set (concat (map G fs)) \<noteq> {}"
      then obtain x g where x: "x \<in> set (G f)" and g: "g \<in> set fs" and xg: "x \<in> set (G g)"
        by auto
      from xg g Cons.prems(3) have Pg: "P g" by auto
      from x xg g Cons.prems(4) have "key f = key g" by auto
      with Pg g have "key f \<in> key ` set (filter P fs)" by auto
      with True Cons.prems(1) show False by simp
    qed
  qed
  from Cons.prems(2) rest disj show ?case by simp
qed


subsection \<open>The end of the run\<close>

lemma out_paths_distinct:
  "OUTPUT_PATH \<noteq> SUMMARY_JSON_OUT" "PER_SOURCE_DIST_OUT \<noteq> SUMMARY_JSON_OUT"
  "SUMMARY_JSON_OUT \<noteq> OUTPUT_PATH" "SUMMARY_JSON_OUT \<noteq> PER_SOURCE_DIST_OUT"
  by (simp_all add: OUTPUT_PATH_def PER_SOURCE_DIST_OUT_def SUMMARY_JSON_OUT_def ascii_simps)

lemma merge_all_empty:
  assumes "all_rows (collect_rows E) = []"
  shows "merge_all E =
     \<lparr>returned = Inl (RuntimeError (ascii ''No rows collected. Check INPUT_DIR and LABEL_MAP.'')),
      stdout = printed (collect_rows E), written = []\<rparr>"
  using assms by (simp add: merge_all_def)

lemma merge_all_nonempty:
  assumes "all_rows (collect_rows E) \<noteq> []"
  shows "returned (merge_all E) = Inr (fst (finalize_frame (all_rows (collect_rows E))))"
    and "map fst (written (merge_all E)) = [OUTPUT_PATH, PER_SOURCE_DIST_OUT, SUMMARY_JSON_OUT]"
    and "run_summary (merge_all E) =
      Some \<lparr>summary_rows = length (fst (finalize_frame (all_rows (collect_rows E)))),
            label_counts = value_counts
              (column_strs (fst (finalize_frame (all_rows (collect_rows E)))) (ascii ''label'')),
            files_processed_counts = per_file_counts (collect_rows E)\<rparr>"
    and "set (printed (collect_rows E)) \<subseteq> set (stdout (merge_all E))"
  using assms
  by (auto simp: merge_all_def Let_def case_prod_unfold run_summary_def out_paths_distinct)

lemma set_frame_columns: "set (frame_columns rows) = (\<Union>r \<in> set rows. fst ` set r)"
  by (auto simp: frame_columns_def)

lemma text_row_keys:
  "fst ` set (text_row src t n) =
     {ascii ''global_id'', ascii ''source'', ascii ''text'', ascii ''label_orig'', ascii ''label'',
      ascii ''orig__text'', ascii ''orig____no_label__'', ascii ''orig___auto_idx_''}"
  by (simp add: text_row_def)

lemma text_row_get:
  "row_get (text_row src t n) (ascii ''text'') = PyStr n"
  "row_get (text_row src t n) (ascii ''label'') = PyStr (ascii ''normal'')"
  "row_get (text_row src t n) (ascii ''global_id'') = PyStr (src @ ascii ''_0'')"
  "row_get (text_row src t n) (ascii ''orig__text'') = PyStr t"
  by (simp_all add: text_row_def row_get_def ascii_simps)

lemma text_row_add_original:
  "AList.update ORIGINAL_TEXT_COL v (text_row src t n) = text_row src t n @ [(ORIGINAL_TEXT_COL, v)]"
  by (simp add: text_row_def ORIGINAL_TEXT_COL_def ascii_simps)

lemma finalize_two_text_rows:
  assumes "n1 \<noteq> n2"
  shows "finalize_frame [text_row s1 t1 n1, text_row s2 t2 n2] =
     ([text_row s1 t1 n1 @ [(ORIGINAL_TEXT_COL, PyStr n1)],
       text_row s2 t2 n2 @ [(ORIGINAL_TEXT_COL, PyStr n2)]], [InfoNoDuplicates])"
proof -
  have cols: "ORIGINAL_TEXT_COL \<notin> set (frame_columns [text_row s1 t1 n1, text_row s2 t2 n2])"
    by (simp add: set_frame_columns text_row_keys ORIGINAL_TEXT_COL_def ascii_simps)
  have canon: "ascii ''normal'' \<in> CANONICAL_LABELS"
    by (simp add: CANONICAL_LABELS_def)
  show ?thesis
    unfolding finalize_frame_def Let_def
    using assms cols canon
    by (simp add: column_strs_def text_row_get py_str_def text_row_add_original)
qed

lemma original_row_get:
  "row_get (text_row src t n @ [(ORIGINAL_TEXT_COL, v)]) ORIGINAL_TEXT_COL = v"
  "row_get (text_row src t n @ [(ORIGINAL_TEXT_COL, v)]) (ascii ''orig__text'') = PyStr t"
  "row_get (text_row src t n @ [(ORIGINAL_TEXT_COL, v)]) (ascii ''global_id'') = PyStr (src @ ascii ''_0'')"
  "row_get (text_row src t n @ [(ORIGINAL_TEXT_COL, v)]) (ascii ''label'') = PyStr (ascii ''normal'')"
  by (simp_all add: text_row_def row_get_def ORIGINAL_TEXT_COL_def ascii_simps)

lemma skip_env_texts_differ: "ascii ''a b'' \<noteq> [0x627, 0x647, 0x644, 0x627]"
  by (simp add: ascii_def)

lemma skip_env_returned:
  "returned (merge_all skip_env) =
     Inr [text_row (ascii ''B'') (ascii ''a  b'') (ascii ''a b'') @
            [(ORIGINAL_TEXT_COL, PyStr (ascii ''a b''))],
          text_row (ascii ''C'') [0x623, 0x647, 0x644, 0x627, 0x64B] [0x627, 0x647, 0x644, 0x627] @
            [(ORIGINAL_TEXT_COL, PyStr [0x627, 0x647, 0x644, 0x627])]]"
  by (subst merge_all_nonempty(1))
     (simp_all add: skip_env_collect finalize_two_text_rows [OF skip_env_texts_differ])

lemma skip_env_summary:
  "run_summary (merge_all skip_env) =
     Some \<lparr>summary_rows = 2, label_counts = [(ascii ''normal'', 2)],
           files_processed_counts = [(ascii ''B'', 1), (ascii ''C'', 1)]\<rparr>"
  by (subst merge_all_nonempty(3))
     (simp_all add: skip_env_collect finalize_two_text_rows [OF skip_env_texts_differ]
        column_strs_def original_row_get py_str_def value_counts_def)


lemma row_get_update_other: "k \<noteq> c \<Longrightarrow> row_get (AList.update k v r) c = row_get r c"
  by (simp add: row_get_def update_conv')

lemma finalize_keeps_global_id:
  "column_strs (fst (finalize_frame rows)) (ascii ''global_id'') =
   column_strs rows (ascii ''global_id'')"
proof -
  have 1: "ascii ''label'' \<noteq> ascii ''global_id''" and 2: "ORIGINAL_TEXT_COL \<noteq> ascii ''global_id''"
    by (simp_all add: ORIGINAL_TEXT_COL_def ascii_simps)
  show ?thesis
    by (simp add: finalize_frame_def Let_def column_strs_def comp_def
          row_get_update_other [OF 1] row_get_update_other [OF 2])
qed

lemma merged_rows_global_ids:
  "column_strs (merged_rows (merge_all E)) (ascii ''global_id'') =
   column_strs (all_rows (collect_rows E)) (ascii ''global_id'')"
proof (cases "all_rows (collect_rows E) = []")
  case True
  then show ?thesis
    by (simp add: merged_rows_def merge_all_empty column_strs_def)
next
  case False
  then show ?thesis
    by (simp add: merged_rows_def merge_all_nonempty(1) finalize_keeps_global_id)
qed

lemma column_strs_concat:
  "column_strs (concat rss) c = concat (map (\<lambda>rs. column_strs rs c) rss)"
  by (simp add: column_strs_def map_concat)

subsection \<open>Positional row ids\<close>

lemma digits_value_digits: "digits_value (digits n) = n"
proof (induction n rule: digits.induct)
  case (1 n)
  show ?case
  proof (cases "n < 10")
    case True
    then show ?thesis
      by (subst digits.simps) (simp add: digits_value_def)
  next
    case False
    with 1 have "digits_value (digits (n div 10)) = n div 10" by simp
    with False show ?thesis
      by (subst digits.simps) (simp add: digits_value_def)
  qed
qed

lemma digits_inj: "inj digits"
  by (rule inj_on_inverseI [where g = digits_value]) (rule digits_value_digits)

lemma digits_chars: "c \<in> set (digits n) \<Longrightarrow> 0x30 \<le> c \<and> c \<le> 0x39"
proof (induction n rule: digits.induct)
  case (1 n)
  show ?case
  proof (cases "n < 10")
    case True
    with "1.prems" show ?thesis
      by (subst (asm) digits.simps) auto
  next
    case False
    with "1.prems" have "c \<in> set (digits (n div 10)) \<or> c = 0x30 + n mod 10"
      by (subst (asm) digits.simps) auto
    with 1 False show ?thesis
      by auto
  qed
qed

lemma range_index_ok:
  "distinct (range_index n)" "i \<in> set (range_index n) \<Longrightarrow> 0x5F \<notin> set i"
proof -
  show "distinct (range_index n)"
    unfolding range_index_def
    by (simp add: distinct_map inj_on_subset [OF digits_inj])
  show "i \<in> set (range_index n) \<Longrightarrow> 0x5F \<notin> set i"
    by (auto simp: range_index_def dest: digits_chars)
qed

lemma set_column_index:
  "map fst (tbl_rows (set_column d c f)) = map fst (tbl_rows d)"
  "map fst (tbl_rows (astype_str d c)) = map fst (tbl_rows d)"
  by (simp_all add: astype_str_def set_column_def case_prod_unfold comp_def)

lemma file_row_ids_no_id_column:
  assumes "canonicalize_columns U df = (Some tc, lc, None)"
  shows "file_row_ids U df = map fst (tbl_rows df)"
proof -
  have "\<And>d. map (\<lambda>(ix, r). py_str (row_get r (ascii ''_auto_idx_'')))
          (tbl_rows (set_column d (ascii ''_auto_idx_'') (\<lambda>ix r. PyStr ix))) =
        map fst (tbl_rows d)"
    by (simp add: set_column_def row_get_def update_conv' py_str_def case_prod_unfold comp_def)
  then show ?thesis
    by (simp add: file_row_ids_def assms prepare_columns_def Let_def case_prod_unfold
          set_column_index split: option.splits)
qed

subsection \<open>Counts per file\<close>

lemma count_value_foldl:
  assumes "f \<in> set fs" "processed_rows E lm f = Some rs"
    and "\<forall>g \<in> set fs. processed_rows E lm g \<noteq> None \<and> file_stem g = file_stem f \<longrightarrow> g = f"
  shows "map_of (per_file_counts (foldl (merge_step E lm) st fs)) (file_stem f) = Some (length rs)"
  using assms
proof (induction fs rule: rev_induct)
  case Nil
  then show ?case by simp
next
  case (snoc g fs)
  show ?case
  proof (cases "g = f")
    case True
    with snoc.prems(2) show ?thesis
      by (simp add: merge_step_processed update_conv')
  next
    case False
    with snoc have IH:
      "map_of (per_file_counts (foldl (merge_step E lm) st fs)) (file_stem f) = Some (length rs)"
      by auto
    show ?thesis
    proof (cases "processed_rows E lm g")
      case None
      with IH show ?thesis by (simp add: merge_step_skipped)
    next
      case (Some rs')
      with False snoc.prems(3) have "file_stem g \<noteq> file_stem f" by auto
      with IH Some show ?thesis
        by (simp add: merge_step_processed update_conv')
    qed
  qed
qed


subsection \<open>What the fallbacks of the code amount to\<close>

text \<open>
  When \<open>read_csv\<close> raises under every encoding, whatever it raises, \<open>safe_read_table\<close>
  raises the same \<open>RuntimeError\<close>.
\<close>

lemma try_encodings_all_fail:
  "\<forall>enc \<in> set encs. \<exists>e. read_csv io path sep enc = Inl e \<Longrightarrow>
   try_encodings io path sep encs = Inl (RuntimeError (ascii ''No active exception to reraise''))"
  by (induction encs) auto

text \<open>
  No collected row has a key \<open>original_text\<close>, so the merged frame never has that column
  before line 285, which then copies the \<open>text\<close> column into it: in every run, the
  \<open>original_text\<close> of a row is its normalized text.
\<close>

lemma foldl_update_keys:
  "fst ` set (foldl (\<lambda>d c. AList.update (f c) (g c) d) d0 cs) = fst ` set d0 \<union> f ` set cs"
  by (induction cs arbitrary: d0) (auto simp: dom_update)

lemma original_text_not_orig_key: "ORIGINAL_TEXT_COL \<noteq> ascii ''orig__'' @ c"
  by (simp add: ORIGINAL_TEXT_COL_def ascii_def)

lemma make_data_row_keys:
  assumes "make_data_row U lm cols src tc lc ic row = Some dr"
  shows "ORIGINAL_TEXT_COL \<notin> fst ` set dr"
proof -
  from assms obtain d0 where dr: "dr = foldl
      (\<lambda>d col. AList.update (ascii ''orig__'' @ col) (row_get row col) d) d0 cols"
    and d0: "map fst d0 =
      [ascii ''global_id'', ascii ''source'', ascii ''text'', ascii ''label_orig'', ascii ''label'']"
    by (auto simp: make_data_row_def Let_def KEEP_ALL_COLUMNS_def split: option.splits)
  have "fst ` set dr = fst ` set d0 \<union> (\<lambda>c. ascii ''orig__'' @ c) ` set cols"
    unfolding dr by (rule foldl_update_keys)
  moreover have "fst ` set d0 = set (map fst d0)" by simp
  moreover have "ORIGINAL_TEXT_COL \<notin> set
      [ascii ''global_id'', ascii ''source'', ascii ''text'', ascii ''label_orig'', ascii ''label'']"
    by (simp add: ORIGINAL_TEXT_COL_def ascii_simps)
  ultimately show ?thesis
    unfolding d0 using original_text_not_orig_key by auto
qed

lemma collected_rows_keys:
  assumes "r \<in> set (all_rows (collect_rows E))"
  shows "ORIGINAL_TEXT_COL \<notin> fst ` set r"
proof -
  from assms obtain f where "r \<in> set (rows_of E get_label_map f)"
    by (auto simp: all_rows_collect)
  then obtain U lm src df tc lc ic where "r \<in> set (rows_from_file U lm src df tc lc ic)"
    by (auto simp: rows_of_def processed_rows_def split: option.splits sum.splits prod.splits)
  then obtain cols lc' ic' row where "make_data_row U lm cols src tc lc' ic' row = Some r"
    by (auto simp: rows_from_file_def List.map_filter_def split: prod.splits)
  then show ?thesis by (rule make_data_row_keys)
qed

lemma finalize_original_text:
  assumes "\<forall>r \<in> set rows. ORIGINAL_TEXT_COL \<notin> fst ` set r"
    and "r \<in> set (fst (finalize_frame rows))"
  shows "row_get r ORIGINAL_TEXT_COL = row_get r (ascii ''text'')"
proof -
  have ne: "ORIGINAL_TEXT_COL \<noteq> ascii ''text''" "ORIGINAL_TEXT_COL \<noteq> ascii ''label''"
    by (simp_all add: ORIGINAL_TEXT_COL_def ascii_simps)
  define relabel where "relabel = (\<lambda>r. AList.update (ascii ''label'')
      (if py_str (row_get r (ascii ''label'')) \<in> CANONICAL_LABELS
       then row_get r (ascii ''label'') else PyStr DEFAULT_MAP_TARGET) r)"
  define bad where "bad =
      filter (\<lambda>l. l \<notin> CANONICAL_LABELS) (remdups (column_strs rows (ascii ''label'')))"
  define merged where "merged = (if bad \<noteq> [] then map relabel rows else rows)"
  have keys: "\<forall>r \<in> set merged. ORIGINAL_TEXT_COL \<notin> fst ` set r"
    using assms(1) ne by (auto simp: merged_def relabel_def dom_update)
  then have cols: "ORIGINAL_TEXT_COL \<notin> set (frame_columns merged)"
    by (simp add: set_frame_columns)
  have "fst (finalize_frame rows) =
      (if ORIGINAL_TEXT_COL \<notin> set (frame_columns merged)
       then map (\<lambda>r. AList.update ORIGINAL_TEXT_COL (row_get r (ascii ''text'')) r) merged
       else merged)"
    by (cases "bad = []")
       (simp_all add: finalize_frame_def Let_def merged_def relabel_def bad_def)
  with cols have "fst (finalize_frame rows) =
      map (\<lambda>r. AList.update ORIGINAL_TEXT_COL (row_get r (ascii ''text'')) r) merged"
    by simp
  with assms(2) obtain r0 where
    "r = AList.update ORIGINAL_TEXT_COL (row_get r0 (ascii ''text'')) r0"
    by auto
  with ne(1) show ?thesis
    by (simp add: row_get_def update_conv')
qed

lemma original_text_copies_text:
  "r \<in> set (merged_rows (merge_all E)) \<Longrightarrow>
   row_get r ORIGINAL_TEXT_COL = row_get r (ascii ''text'')"
proof (cases "all_rows (collect_rows E) = []")
  case True
  assume "r \<in> set (merged_rows (merge_all E))"
  with True show ?thesis
    by (simp add: merged_rows_def merge_all_empty)
next
  case False
  assume "r \<in> set (merged_rows (merge_all E))"
  with False have "r \<in> set (fst (finalize_frame (all_rows (collect_rows E))))"
    by (simp add: merged_rows_def merge_all_nonempty(1))
  with collected_rows_keys show ?thesis
    by (intro finalize_original_text) blast+
qed

subsection \<open>The claims about the run\<close>

lemma no_rows_when_all_skipped:
  "\<forall>f \<in> set (find_files (glob E) INPUT_DIR). processed_rows E get_label_map f = None \<Longrightarrow>
   all_rows (collect_rows E) = []"
  by (simp add: all_rows_collect rows_of_def)

lemma fail_env_files:
  "find_files (glob fail_env) INPUT_DIR = [ascii ''All_datasets/A.csv'']"
  unfolding fail_env_def find_files_sample by simp

lemma fail_env_read:
  "safe_read_table U (pandas fail_env) (ascii ''All_datasets/A.csv'') =
     Inl (RuntimeError (ascii ''No active exception to reraise''))"
  unfolding fail_env_def
  by (simp add: safe_read_table_sample sample_paths_ext)

text \<open>
  Claim C6.  If the loop over the discovered files collects no row, \<open>merge_all\<close> raises
  its \<open>RuntimeError\<close> and writes none of the output files.
\<close>

theorem merge_all_no_rows_fatal:
  "all_rows (collect_rows E) = [] \<Longrightarrow>
   returned (merge_all E) =
     Inl (RuntimeError (ascii ''No rows collected. Check INPUT_DIR and LABEL_MAP.'')) \<and>
   written (merge_all E) = []"
  by (simp add: merge_all_def)

theorem merge_all_no_rows_fatal_witness:
  "all_rows (collect_rows fail_env) = [] \<and>
   returned (merge_all fail_env) =
     Inl (RuntimeError (ascii ''No rows collected. Check INPUT_DIR and LABEL_MAP.'')) \<and>
   written (merge_all fail_env) = []"
proof -
  have "processed_rows fail_env get_label_map (ascii ''All_datasets/A.csv'') = None"
    by (rule processed_rows_unreadable) (rule fail_env_read)
  then have h: "all_rows (collect_rows fail_env) = []"
    by (intro no_rows_when_all_skipped) (simp add: fail_env_files)
  from h merge_all_no_rows_fatal [OF h] show ?thesis by simp
qed

text \<open>
  Claim C7, at a file that no encoding can read (an empty \<open>A.csv\<close>, for which every
  \<open>read_csv\<close> raises \<open>No columns to parse from file\<close>): \<open>safe_read_table\<close> raises
  \<open>RuntimeError('No active exception to reraise')\<close>, which neither names the file nor
  carries the cause.  The orchestrator does catch it, print the warning and go on to
  write the three output files.
\<close>

theorem safe_read_table_all_encodings_fail:
  "read_csv (pandas skip_env) (ascii ''All_datasets/A.csv'') 0x2C CP1256 =
     Inl (ValueError (ascii ''No columns to parse from file'')) \<and>
   safe_read_table sample_unicode (pandas skip_env) (ascii ''All_datasets/A.csv'') =
     Inl (RuntimeError (ascii ''No active exception to reraise'')) \<and>
   WarnCouldNotRead (ascii ''All_datasets/A.csv'')
     (RuntimeError (ascii ''No active exception to reraise'')) \<in> set (stdout (merge_all skip_env)) \<and>
   map fst (written (merge_all skip_env)) = [OUTPUT_PATH, PER_SOURCE_DIST_OUT, SUMMARY_JSON_OUT]"
proof -
  have ne: "all_rows (collect_rows skip_env) \<noteq> []"
    by (simp add: skip_env_collect)
  have "WarnCouldNotRead (ascii ''All_datasets/A.csv'')
     (RuntimeError (ascii ''No active exception to reraise'')) \<in> set (printed (collect_rows skip_env))"
    by (simp add: skip_env_collect)
  with merge_all_nonempty(4) [OF ne]
  have "WarnCouldNotRead (ascii ''All_datasets/A.csv'')
     (RuntimeError (ascii ''No active exception to reraise'')) \<in> set (stdout (merge_all skip_env))"
    by blast
  moreover have "read_csv (pandas skip_env) (ascii ''All_datasets/A.csv'') 0x2C CP1256 =
     Inl (ValueError (ascii ''No columns to parse from file''))"
    by (simp add: skip_env_def sample_env_def)
  ultimately show ?thesis
    by (simp add: skip_env_read merge_all_nonempty(2) [OF ne])
qed

text \<open>
  Claim C4, at a run over \<open>B.csv\<close> with the text \<open>a  b\<close> (two spaces) and \<open>C.csv\<close> with an
  Arabic text: the \<open>original_text\<close> column of the merged frame holds the normalized
  texts, the same as the \<open>text\<close> column, and not the texts as they were read, which are
  in \<open>orig__text\<close>.
\<close>

theorem original_text_is_normalized_text:
  "column_strs (merged_rows (merge_all skip_env)) ORIGINAL_TEXT_COL =
     [ascii ''a b'', [0x627, 0x647, 0x644, 0x627]] \<and>
   column_strs (merged_rows (merge_all skip_env)) (ascii ''orig__text'') =
     [ascii ''a  b'', [0x623, 0x647, 0x644, 0x627, 0x64B]]"
  by (simp add: merged_rows_def skip_env_returned column_strs_def original_row_get py_str_def)

text \<open>
  Claim C8, as stated, fails: \<open>A.csv\<close> is discovered, cannot be loaded and contributes no
  row, and the summary's counts have no entry for it.
\<close>

theorem skipped_file_not_in_summary:
  "ascii ''All_datasets/A.csv'' \<in> set (find_files (glob skip_env) INPUT_DIR) \<and>
   rows_of skip_env get_label_map (ascii ''All_datasets/A.csv'') = [] \<and>
   run_summary (merge_all skip_env) =
     Some \<lparr>summary_rows = 2, label_counts = [(ascii ''normal'', 2)],
           files_processed_counts = [(ascii ''B'', 1), (ascii ''C'', 1)]\<rparr> \<and>
   map_of [(ascii ''B'', 1::nat), (ascii ''C'', 1)] (file_stem (ascii ''All_datasets/A.csv'')) = None"
  by (simp add: skip_env_files skip_env_summary rows_of_def sample_paths_stem ascii_simps
        processed_rows_unreadable [OF skip_env_read(1)])

text \<open>
  Claim C8, amended.  When the run writes its summary, the per-file counts have an entry
  exactly for the stems of the discovered files that were loaded and had a usable text
  column; and for such a file whose stem no other such file shares, the entry is the
  number of rows collected from it, zero included.
\<close>

theorem summary_counts_cover_processed_files:
  assumes "run_summary (merge_all E) = Some s"
  shows "fst ` set (files_processed_counts s) =
           file_stem ` {f \<in> set (find_files (glob E) INPUT_DIR).
                          processed_rows E get_label_map f \<noteq> None} \<and>
         (\<forall>f rs. f \<in> set (find_files (glob E) INPUT_DIR) \<and>
                  processed_rows E get_label_map f = Some rs \<and>
                  (\<forall>g \<in> set (find_files (glob E) INPUT_DIR).
                     processed_rows E get_label_map g \<noteq> None \<and> file_stem g = file_stem f
                     \<longrightarrow> g = f) \<longrightarrow>
                  map_of (files_processed_counts s) (file_stem f) = Some (length rs))"
proof -
  have ne: "all_rows (collect_rows E) \<noteq> []"
  proof
    assume "all_rows (collect_rows E) = []"
    then have "run_summary (merge_all E) = None"
      by (simp add: merge_all_empty run_summary_def)
    with assms show False by simp
  qed
  from assms merge_all_nonempty(3) [OF ne]
  have s: "files_processed_counts s = per_file_counts (collect_rows E)"
    by auto
  have "\<And>f rs. f \<in> set (find_files (glob E) INPUT_DIR) \<Longrightarrow>
      processed_rows E get_label_map f = Some rs \<Longrightarrow>
      \<forall>g \<in> set (find_files (glob E) INPUT_DIR).
         processed_rows E get_label_map g \<noteq> None \<and> file_stem g = file_stem f \<longrightarrow> g = f \<Longrightarrow>
      map_of (per_file_counts (collect_rows E)) (file_stem f) = Some (length rs)"
    unfolding collect_rows_def Let_def by (rule count_value_foldl)
  then show ?thesis
    unfolding s count_keys_collect by blast
qed

theorem summary_counts_cover_processed_files_witness:
  "run_summary (merge_all skip_env) =
     Some \<lparr>summary_rows = 2, label_counts = [(ascii ''normal'', 2)],
           files_processed_counts = [(ascii ''B'', 1), (ascii ''C'', 1)]\<rparr> \<and>
   fst ` set [(ascii ''B'', 1::nat), (ascii ''C'', 1)] =
     file_stem ` {f \<in> set (find_files (glob skip_env) INPUT_DIR).
                    processed_rows skip_env get_label_map f \<noteq> None} \<and>
   processed_rows skip_env get_label_map (ascii ''All_datasets/B.csv'') =
     Some [text_row (ascii ''B'') (ascii ''a  b'') (ascii ''a b'')] \<and>
   map_of [(ascii ''B'', 1::nat), (ascii ''C'', 1)] (file_stem (ascii ''All_datasets/B.csv'')) = Some 1"
proof -
  let ?s = "\<lparr>summary_rows = 2, label_counts = [(ascii ''normal'', 2)],
           files_processed_counts = [(ascii ''B'', 1), (ascii ''C'', 1)]\<rparr>"
  have u: "unicode skip_env = sample_unicode"
    by (simp add: skip_env_def unicode_sample_env)
  have A: "processed_rows skip_env get_label_map (ascii ''All_datasets/A.csv'') = None"
    by (rule processed_rows_unreadable) (rule skip_env_read)
  have B: "processed_rows skip_env get_label_map (ascii ''All_datasets/B.csv'') =
     Some [text_row (ascii ''B'') (ascii ''a  b'') (ascii ''a b'')]"
    by (subst processed_rows_text_table [OF skip_env_read(2)])
       (simp_all add: sample_paths_stem u normalize_samples ascii_simps)
  have C: "processed_rows skip_env get_label_map (ascii ''All_datasets/C.csv'') \<noteq> None"
    by (subst processed_rows_text_table [OF skip_env_read(3)])
       (simp_all add: sample_paths_stem ascii_simps)
  have uniq: "\<forall>g \<in> set (find_files (glob skip_env) INPUT_DIR).
      processed_rows skip_env get_label_map g \<noteq> None \<and>
      file_stem g = file_stem (ascii ''All_datasets/B.csv'') \<longrightarrow> g = ascii ''All_datasets/B.csv''"
    by (simp add: skip_env_files A sample_paths_stem ascii_simps)
  have mem: "ascii ''All_datasets/B.csv'' \<in> set (find_files (glob skip_env) INPUT_DIR)"
    by (simp add: skip_env_files)
  from summary_counts_cover_processed_files [OF skip_env_summary] mem B uniq
  show ?thesis
    by (simp add: skip_env_summary B)
qed


lemma same_stem_env_files:
  "find_files (glob same_stem_env) INPUT_DIR =
     [ascii ''All_datasets/a/D.csv'', ascii ''All_datasets/b/D.csv'']"
  unfolding same_stem_env_def find_files_sample by (simp add: ascii_def)

lemma same_stem_env_read:
  "safe_read_table U (pandas same_stem_env) (ascii ''All_datasets/a/D.csv'') =
     Inr (text_table [ascii ''hi''])"
  "safe_read_table U (pandas same_stem_env) (ascii ''All_datasets/b/D.csv'') =
     Inr (text_table [ascii ''yo''])"
  unfolding same_stem_env_def
  by (simp_all add: safe_read_table_sample sample_paths_ext ascii_simps)

lemma same_stem_env_rows:
  "all_rows (collect_rows same_stem_env) =
     [text_row (ascii ''D'') (ascii ''hi'') (ascii ''hi''),
      text_row (ascii ''D'') (ascii ''yo'') (ascii ''yo'')]"
proof -
  have u: "unicode same_stem_env = sample_unicode"
    by (simp add: same_stem_env_def unicode_sample_env)
  show ?thesis
    unfolding collect_rows_def Let_def same_stem_env_files
    by (simp add: same_stem_env_read merge_step_text_table sample_paths_stem
          u normalize_samples ascii_simps)
qed

text \<open>
  Claim C1, as stated, fails: two discovered files with the same stem, \<open>a/D.csv\<close> and
  \<open>b/D.csv\<close>, neither with an id column, each give their first row the global id
  \<open>D_0\<close>.
\<close>

theorem same_stem_global_ids_collide:
  "column_strs (merged_rows (merge_all same_stem_env)) (ascii ''global_id'') =
     [ascii ''D_0'', ascii ''D_0''] \<and>
   \<not> distinct (column_strs (merged_rows (merge_all same_stem_env)) (ascii ''global_id''))"
  unfolding merged_rows_global_ids same_stem_env_rows
  by (simp add: column_strs_def text_row_get py_str_def ascii_simps)

text \<open>
  Claim C1, amended.  The global id of a row is the stem of its file, an underscore and
  the row's per-file id (the recognised id column, or else the index label of the row,
  which for the default index is the zero-based position).  If the files that were
  loaded and had a text column have pairwise different stems, and within each loaded
  file the per-file ids are pairwise different and contain no underscore, then the
  global ids of the merged frame are pairwise different.
\<close>

theorem global_ids_distinct:
  assumes stems: "distinct (map file_stem
      (filter (\<lambda>f. processed_rows E get_label_map f \<noteq> None) (find_files (glob E) INPUT_DIR)))"
    and ids: "\<forall>f \<in> set (find_files (glob E) INPUT_DIR).
      \<forall>df. safe_read_table (unicode E) (pandas E) f = Inr df \<longrightarrow>
        distinct (file_row_ids (unicode E) df) \<and>
        (\<forall>i \<in> set (file_row_ids (unicode E) df). 0x5F \<notin> set i)"
  shows "distinct (column_strs (merged_rows (merge_all E)) (ascii ''global_id'')) \<and>
         (\<forall>f rs. processed_rows E get_label_map f = Some rs \<longrightarrow>
            (\<exists>df. safe_read_table (unicode E) (pandas E) f = Inr df \<and>
               column_strs rs (ascii ''global_id'') =
                 map (\<lambda>i. file_stem f @ ascii ''_'' @ i) (file_row_ids (unicode E) df)))"
proof -
  let ?files = "find_files (glob E) INPUT_DIR"
  let ?P = "\<lambda>f. processed_rows E get_label_map f \<noteq> None"
  let ?G = "\<lambda>f. column_strs (rows_of E get_label_map f) (ascii ''global_id'')"
  have shape: "\<exists>df. safe_read_table (unicode E) (pandas E) f = Inr df \<and>
      ?G f = map (\<lambda>i. file_stem f @ ascii ''_'' @ i) (file_row_ids (unicode E) df)"
    if "?P f" for f
  proof -
    from that obtain rs where rs: "processed_rows E get_label_map f = Some rs" by auto
    from processed_global_ids [OF rs] rs show ?thesis
      by (simp add: rows_of_def)
  qed
  have skipped: "?G f = []" if "\<not> ?P f" for f
    using that by (simp add: rows_of_def column_strs_def)
  have each: "distinct (?G f)" if f: "f \<in> set ?files" for f
  proof (cases "?P f")
    case False
    then show ?thesis by (simp add: skipped)
  next
    case True
    from shape [OF True] obtain df where df: "safe_read_table (unicode E) (pandas E) f = Inr df"
      and G: "?G f = map (\<lambda>i. file_stem f @ ascii ''_'' @ i) (file_row_ids (unicode E) df)"
      by blast
    from ids f df have "distinct (file_row_ids (unicode E) df)" by blast
    then show ?thesis
      unfolding G by (simp add: distinct_map inj_on_def)
  qed
  have same_key: "file_stem f = file_stem g"
    if f: "f \<in> set ?files" and g: "g \<in> set ?files" and x: "x \<in> set (?G f)" "x \<in> set (?G g)"
    for f g x
  proof -
    from x skipped have Pf: "?P f" and Pg: "?P g" by fastforce+
    from shape [OF Pf] obtain df where df: "safe_read_table (unicode E) (pandas E) f = Inr df"
      and Gf: "?G f = map (\<lambda>i. file_stem f @ ascii ''_'' @ i) (file_row_ids (unicode E) df)"
      by blast
    from shape [OF Pg] obtain dg where dg: "safe_read_table (unicode E) (pandas E) g = Inr dg"
      and Gg: "?G g = map (\<lambda>i. file_stem g @ ascii ''_'' @ i) (file_row_ids (unicode E) dg)"
      by blast
    from x(1) Gf obtain i where i: "i \<in> set (file_row_ids (unicode E) df)"
      and xi: "x = file_stem f @ ascii ''_'' @ i" by auto
    from x(2) Gg obtain j where j: "j \<in> set (file_row_ids (unicode E) dg)"
      and xj: "x = file_stem g @ ascii ''_'' @ j" by auto
    from ids f df i have ui: "0x5F \<notin> set i" by blast
    from ids g dg j have uj: "0x5F \<notin> set j" by blast
    from xi xj have "file_stem f @ ascii ''_'' @ i = file_stem g @ ascii ''_'' @ j" by simp
    with underscore_split [OF ui uj] show ?thesis by blast
  qed
  have "distinct (concat (map ?G ?files))"
  proof (rule distinct_concat_by_key [where key = file_stem and P = ?P])
    show "distinct (map file_stem (filter ?P ?files))" by (rule stems)
    show "\<forall>f \<in> set ?files. distinct (?G f)" using each by blast
    show "\<forall>f \<in> set ?files. \<not> ?P f \<longrightarrow> ?G f = []" using skipped by blast
    show "\<forall>f \<in> set ?files. \<forall>g \<in> set ?files. \<forall>x.
        x \<in> set (?G f) \<and> x \<in> set (?G g) \<longrightarrow> file_stem f = file_stem g"
      using same_key by blast
  qed
  then have "distinct (column_strs (merged_rows (merge_all E)) (ascii ''global_id''))"
    by (simp add: merged_rows_global_ids all_rows_collect column_strs_concat comp_def)
  with processed_global_ids show ?thesis
    by blast
qed

theorem global_ids_distinct_witness:
  "map file_stem (filter (\<lambda>f. processed_rows skip_env get_label_map f \<noteq> None)
      (find_files (glob skip_env) INPUT_DIR)) = [ascii ''B'', ascii ''C''] \<and>
   column_strs (merged_rows (merge_all skip_env)) (ascii ''global_id'') =
     [ascii ''B_0'', ascii ''C_0''] \<and>
   distinct (column_strs (merged_rows (merge_all skip_env)) (ascii ''global_id''))"
proof -
  have u: "unicode skip_env = sample_unicode"
    by (simp add: skip_env_def unicode_sample_env)
  have A: "processed_rows skip_env get_label_map (ascii ''All_datasets/A.csv'') = None"
    by (rule processed_rows_unreadable) (rule skip_env_read)
  have B: "processed_rows skip_env get_label_map (ascii ''All_datasets/B.csv'') \<noteq> None"
    by (subst processed_rows_text_table [OF skip_env_read(2)])
       (simp_all add: sample_paths_stem ascii_simps)
  have C: "processed_rows skip_env get_label_map (ascii ''All_datasets/C.csv'') \<noteq> None"
    by (subst processed_rows_text_table [OF skip_env_read(3)])
       (simp_all add: sample_paths_stem ascii_simps)
  have st: "map file_stem (filter (\<lambda>f. processed_rows skip_env get_label_map f \<noteq> None)
      (find_files (glob skip_env) INPUT_DIR)) = [ascii ''B'', ascii ''C'']"
    by (simp add: skip_env_files A B C sample_paths_stem)
  have stems: "distinct (map file_stem
      (filter (\<lambda>f. processed_rows skip_env get_label_map f \<noteq> None)
         (find_files (glob skip_env) INPUT_DIR)))"
    unfolding st by (simp add: ascii_simps)
  have ids: "\<forall>f \<in> set (find_files (glob skip_env) INPUT_DIR).
      \<forall>df. safe_read_table (unicode skip_env) (pandas skip_env) f = Inr df \<longrightarrow>
        distinct (file_row_ids (unicode skip_env) df) \<and>
        (\<forall>i \<in> set (file_row_ids (unicode skip_env) df). 0x5F \<notin> set i)"
  proof -
    have "0x5F \<notin> set (ascii ''0'')" by (simp add: ascii_def)
    then show ?thesis
      unfolding skip_env_files
      by (simp add: skip_env_read file_row_ids_text_table)
  qed
  have gids: "column_strs (merged_rows (merge_all skip_env)) (ascii ''global_id'') =
     [ascii ''B_0'', ascii ''C_0'']"
    unfolding merged_rows_global_ids skip_env_collect
    by (simp add: column_strs_def text_row_get py_str_def ascii_simps)
  from global_ids_distinct [OF stems ids] st gids show ?thesis by simp
qed

end
